theory Spec2Isabelle
  imports Complex_Main
begin

section \<open>Python strings\<close>

text \<open>
  A Python \<open>str\<close> is a sequence of code points. It is modelled as a \<open>string\<close> whose
  characters are the code points below 256, so the theorems speak about strings of
  that range. The predicates below are Python's on that range: \<open>str.isspace\<close>,
  \<open>str.isdecimal\<close>, \<open>str.isdigit\<close> (which also accepts the superscript digits
  U+00B2, U+00B3 and U+00B9), \<open>str.lower\<close> and \<open>str.strip\<close>.
\<close>

definition chr_isspace :: "char \<Rightarrow> bool" where
  "chr_isspace c =
     (let n = (of_char c :: nat)
      in (9 \<le> n \<and> n \<le> 13) \<or> (28 \<le> n \<and> n \<le> 32) \<or> n = 133 \<or> n = 160)"

text \<open>
  The whitespace that \<open>int\<close> drops around a number is narrower than \<open>isspace\<close>:
  the separators U+001C to U+001F are not accepted there.
\<close>

definition chr_isspace_int :: "char \<Rightarrow> bool" where
  "chr_isspace_int c =
     (let n = (of_char c :: nat) in (9 \<le> n \<and> n \<le> 13) \<or> n = 32 \<or> n = 133 \<or> n = 160)"

definition strip_int :: "string \<Rightarrow> string" where
  "strip_int s = rev (dropWhile chr_isspace_int (rev (dropWhile chr_isspace_int s)))"

definition chr_isdecimal :: "char \<Rightarrow> bool" where
  "chr_isdecimal c = (let n = (of_char c :: nat) in 48 \<le> n \<and> n \<le> 57)"

definition chr_isdigit :: "char \<Rightarrow> bool" where
  "chr_isdigit c =
     (let n = (of_char c :: nat) in chr_isdecimal c \<or> n = 178 \<or> n = 179 \<or> n = 185)"

definition chr_value :: "char \<Rightarrow> nat" where
  "chr_value c = (of_char c :: nat) - 48"

definition chr_lower :: "char \<Rightarrow> char" where
  "chr_lower c =
     (let n = (of_char c :: nat)
      in if (65 \<le> n \<and> n \<le> 90) \<or> (192 \<le> n \<and> n \<le> 222 \<and> n \<noteq> 215)
         then char_of (n + 32) else c)"

definition lower :: "string \<Rightarrow> string" where
  "lower s = map chr_lower s"

definition isdigit :: "string \<Rightarrow> bool" where
  "isdigit s = (s \<noteq> [] \<and> list_all chr_isdigit s)"

definition strip :: "string \<Rightarrow> string" where
  "strip s = rev (dropWhile chr_isspace (rev (dropWhile chr_isspace s)))"

text \<open>
  \<open>int(s)\<close> in base ten: surrounding whitespace is dropped, one sign is allowed, then
  decimal digits follow, where single underscores may stand between two digits.
  \<open>None\<close> is the \<open>ValueError\<close>. CPython from 3.11 on (and the late releases of 3.7
  to 3.10) also raises \<open>ValueError\<close> for a text of more than
  \<open>sys.get_int_max_str_digits()\<close> digits, leading zeros counted, sign, underscores and
  whitespace not; the limit is 4300 unless the program changes it, and this one does
  not.
\<close>

definition int_max_str_digits :: nat where
  "int_max_str_digits = 4300"

fun int_digits :: "string \<Rightarrow> nat \<Rightarrow> nat option" where
  "int_digits [] acc = Some acc"
| "int_digits (c # cs) acc =
     (if chr_isdecimal c then int_digits cs (10 * acc + chr_value c)
      else if c = CHR ''_'' then
        (case cs of
           [] \<Rightarrow> None
         | d # ds \<Rightarrow>
             if chr_isdecimal d then int_digits ds (10 * acc + chr_value d) else None)
      else None)"

definition int_unsigned :: "string \<Rightarrow> nat option" where
  "int_unsigned s =
     (case s of
        [] \<Rightarrow> None
      | d # ds \<Rightarrow> if chr_isdecimal d then int_digits ds (chr_value d) else None)"

definition int_literal :: "string \<Rightarrow> int option" where
  "int_literal s =
     (case strip_int s of
        [] \<Rightarrow> None
      | c # cs \<Rightarrow>
          if c = CHR ''-'' then map_option (\<lambda>n. - int n) (int_unsigned cs)
          else if c = CHR ''+'' then map_option int (int_unsigned cs)
          else map_option int (int_unsigned (c # cs)))"

definition py_int :: "string \<Rightarrow> int option" where
  "py_int s =
     (if int_max_str_digits < length (filter chr_isdecimal s) then None else int_literal s)"


section \<open>Python floats\<close>

text \<open>
  A Python \<open>float\<close> is an IEEE 754 binary64 number: a finite value, an infinity, or
  not a number. A finite float is modelled by its value, so the two zeros are one value:
  Python's comparisons do not tell them apart, SQLite returns 0.0 for both, and no sum
  that starts at 0 is a negative zero. The values of the type that are floats are the
  results of \<open>round_double\<close>.

  \<open>round_double q\<close> is the float nearest to the rational \<open>q\<close>, the tie going to the
  even significand: with \<open>e\<close> the exponent of \<open>q\<close>, at least -1022, the significand
  \<open>m\<close> is \<open>q\<close> in units of \<open>2 ^ (e - 52)\<close>, rounded. A result that reaches
  \<open>2 ^ 1024\<close> is an infinity: that is the case when \<open>e\<close> is 1024 or more, or \<open>e\<close> is
  1023 and \<open>m\<close> was rounded up to \<open>2 ^ 53\<close>.
\<close>

datatype pyfloat = Finite rat | PosInf | NegInf | NaN

function bit_length :: "int \<Rightarrow> int" where
  "bit_length n = (if n \<le> 0 then 0 else bit_length (n div 2) + 1)"
  by pat_completeness auto

termination
  by (relation "measure nat") auto

declare bit_length.simps [simp del]

definition pow2 :: "int \<Rightarrow> rat" where
  "pow2 k = (if 0 \<le> k then 2 ^ nat k else 1 / 2 ^ nat (- k))"

definition round_half_even :: "rat \<Rightarrow> int" where
  "round_half_even q =
     (let f = \<lfloor>q\<rfloor>; r = q - of_int f
      in if r < 1 / 2 then f else if 1 / 2 < r then f + 1 else if even f then f else f + 1)"

text \<open>For a positive \<open>a\<close>, the \<open>e\<close> with \<open>2 ^ e \<le> a < 2 ^ (e + 1)\<close>.\<close>

definition float_exponent :: "rat \<Rightarrow> int" where
  "float_exponent a =
     (let (n, d) = quotient_of a;
          k = bit_length n - bit_length d
      in if pow2 k \<le> a then k else k - 1)"

definition round_double :: "rat \<Rightarrow> pyfloat" where
  "round_double q =
     (if q = 0 then Finite 0
      else
        let a = \<bar>q\<bar>;
            e = float_exponent a;
            u = max e (- 1022) - 52;
            m = round_half_even (a / pow2 u);
            v = of_int m * pow2 u
        in if 1024 \<le> e \<or> (e = 1023 \<and> m = 2 ^ 53) then (if 0 < q then PosInf else NegInf)
           else Finite (if 0 < q then v else - v))"

text \<open>
  Addition, negation and subtraction of floats, and the comparison \<open>x > y\<close>, which is
  false when either side is not a number.
\<close>

definition float_add :: "pyfloat \<Rightarrow> pyfloat \<Rightarrow> pyfloat" where
  "float_add x y =
     (case x of
        Finite a \<Rightarrow> (case y of Finite b \<Rightarrow> round_double (a + b) | _ \<Rightarrow> y)
      | PosInf \<Rightarrow> (case y of NegInf \<Rightarrow> NaN | NaN \<Rightarrow> NaN | _ \<Rightarrow> PosInf)
      | NegInf \<Rightarrow> (case y of PosInf \<Rightarrow> NaN | NaN \<Rightarrow> NaN | _ \<Rightarrow> NegInf)
      | NaN \<Rightarrow> NaN)"

definition float_neg :: "pyfloat \<Rightarrow> pyfloat" where
  "float_neg x =
     (case x of Finite a \<Rightarrow> Finite (- a) | PosInf \<Rightarrow> NegInf | NegInf \<Rightarrow> PosInf
      | NaN \<Rightarrow> NaN)"

definition float_sub :: "pyfloat \<Rightarrow> pyfloat \<Rightarrow> pyfloat" where
  "float_sub x y = float_add x (float_neg y)"

definition float_gt :: "pyfloat \<Rightarrow> pyfloat \<Rightarrow> bool" where
  "float_gt x y =
     (case x of
        Finite a \<Rightarrow> (case y of Finite b \<Rightarrow> b < a | NegInf \<Rightarrow> True | _ \<Rightarrow> False)
      | PosInf \<Rightarrow> (case y of Finite b \<Rightarrow> True | NegInf \<Rightarrow> True | _ \<Rightarrow> False)
      | _ \<Rightarrow> False)"

text \<open>\<open>max(a, b)\<close> keeps \<open>a\<close> unless \<open>b > a\<close>.\<close>

definition py_max :: "pyfloat \<Rightarrow> pyfloat \<Rightarrow> pyfloat" where
  "py_max a b = (if float_gt b a then b else a)"

text \<open>
  What a \<open>db.Float\<close> column holds after a float was written to it: SQLite stores a
  value that is not a number as NULL.
\<close>

definition store_float :: "pyfloat \<Rightarrow> pyfloat option" where
  "store_float x = (case x of NaN \<Rightarrow> None | _ \<Rightarrow> Some x)"


section \<open>Reference data: canal suggestion\<close>

text \<open>
  \<open>get_canals_for_tooth\<close>: the guard \<open>not tooth_number or len(tooth_number) < 3\<close>,
  the slice \<open>tooth_number[2:]\<close>, the pediatric letters, \<open>int(num)\<close> under a bare
  \<open>except\<close>, and the table of the permanent teeth.
\<close>

definition get_canals_for_tooth :: "string \<Rightarrow> string list" where
  "get_canals_for_tooth tooth_number =
     (if tooth_number = [] \<or> length tooth_number < 3 then [''M'']
      else
        let num = drop 2 tooth_number
        in if num \<in> set [''A'', ''B'', ''C'', ''D'', ''E''] then [''M'']
           else
             (case py_int num of
                None \<Rightarrow> [''M'']
              | Some n \<Rightarrow>
                  if n \<in> set [1, 2, 3] then [''C'']
                  else if n = 4 then [''B'', ''P'']
                  else if n = 5 then [''C'']
                  else if n = 6 then [''MB1'', ''MB2'', ''DB'', ''P'']
                  else if n = 7 then [''MB'', ''DB'', ''P'']
                  else if n = 8 then [''MB'', ''DB'', ''P'']
                  else [''M'']))"


section \<open>The stored records\<close>

text \<open>
  Each table of the SQLAlchemy model is a list of rows in insertion order. Columns that
  no route reads for a decision and no claim speaks about (the demographic and history
  columns of a patient, the endodontic and surgical detail of a treatment) are left out.
  A \<open>db.Float\<close> column holds a float or NULL. A nullable column that the code guards
  with \<open>or 0\<close> or sets to \<open>None\<close> is an \<open>option\<close>.

  SQLite keeps in a column whatever it is given: a text written to an INTEGER column
  stays text unless it reads as a number. The columns \<open>case_id\<close> of treatments,
  payments and radiographs are declared Integer with a foreign key to \<open>cases.id\<close> and
  are written with the case identifier string, so their values are \<open>sqlval\<close>.
  Foreign keys are not enforced (SQLite's default, which the configuration keeps).
\<close>

datatype sqlval = SqlNull | SqlInt int | SqlReal pyfloat | SqlText string

record user_row =
  usr_id :: int
  usr_username :: string
  usr_role :: string

record patient_row =
  pat_id :: int
  pat_file_no :: string
  pat_full_name :: "string option"

record case_row =
  cas_id :: int
  cas_case_id :: string
  cas_title :: "string option"
  cas_chief_complaint :: "string option"
  cas_diagnosis :: "string option"
  cas_treatment_plan :: "string option"
  cas_status :: string
  cas_patient_id :: int

record visit_row =
  vis_id :: int
  vis_visit_date :: string
  vis_patient_id :: int
  vis_doctor_id :: "int option"
  vis_attachment :: "string option"

record prescription_row =
  rx_id :: int
  rx_visit_id :: int
  rx_notes :: "string option"

record item_row =
  itm_id :: int
  itm_prescription_id :: int
  itm_drug_name :: string

record treatment_row =
  trt_id :: int
  trt_treatment_category :: "string option"
  trt_treatment_type :: "string option"
  trt_date :: string
  trt_notes :: "string option"
  trt_amount :: "pyfloat option"
  trt_next_appointment :: "string option"
  trt_status :: string
  trt_tooth_number :: "string option"
  trt_doctor :: "string option"
  trt_dentist_id :: "int option"
  trt_patient_id :: int
  trt_case_id :: sqlval
  trt_visit_id :: int

record followup_row =
  fu_id :: int
  fu_notes :: string
  fu_next_appointment :: "string option"
  fu_status :: "string option"
  fu_attachment :: "string option"
  fu_treatment_id :: int

record dentist_row =
  den_id :: int
  den_name :: string

record payment_row =
  pay_id :: int
  pay_patient_id :: int
  pay_treatment_id :: "int option"
  pay_case_id :: sqlval
  pay_date :: string
  pay_treatment_fee :: "pyfloat option"
  pay_amount_paid :: "pyfloat option"
  pay_remaining_balance :: "pyfloat option"

record radiograph_row =
  rad_id :: int
  rad_patient_id :: int
  rad_treatment_id :: "int option"
  rad_case_id :: sqlval
  rad_filename :: string
  rad_uploaded_by :: "string option"
  rad_uploaded_at :: string

text \<open>The database, and beside it the names of the files in the upload folder.\<close>

record db =
  db_users :: "user_row list"
  db_patients :: "patient_row list"
  db_cases :: "case_row list"
  db_visits :: "visit_row list"
  db_prescriptions :: "prescription_row list"
  db_items :: "item_row list"
  db_treatments :: "treatment_row list"
  db_followups :: "followup_row list"
  db_dentists :: "dentist_row list"
  db_payments :: "payment_row list"
  db_radiographs :: "radiograph_row list"
  db_uploads :: "string list"


section \<open>Requests, the session and the environment\<close>

text \<open>
  The Flask session holds the user name and the role. A request has a method, the form
  fields, the query arguments and, for each file field, the name of the uploaded file.
  What a route takes from outside the program is gathered in \<open>env\<close>: the clock in the
  four formats the routes print it in, the draws of \<open>random.randint(1000, 9999)\<close>,
  werkzeug's \<open>secure_filename\<close>, Python's \<open>float\<close> on a string (\<open>None\<close> is the
  \<open>ValueError\<close>; \<open>float\<close> reads \<open>'nan'\<close> and \<open>'inf'\<close> as well as numerals) and
  SQLite's conversion of a text written to an INTEGER column.
\<close>

record session =
  ss_username :: "string option"
  ss_role :: "string option"

record request =
  rq_method :: string
  rq_form :: "string \<Rightarrow> string option"
  rq_args :: "string \<Rightarrow> string option"
  rq_files :: "string \<Rightarrow> string option"

record env =
  env_today_compact :: string
  env_today_dashed :: string
  env_now_stamp :: string
  env_now_minute :: string
  env_randint :: "nat \<Rightarrow> nat"
  env_secure_filename :: "string \<Rightarrow> string"
  env_float :: "string \<Rightarrow> pyfloat option"
  env_integer_affinity :: "string \<Rightarrow> sqlval"

datatype exn =
  AttributeError | ValueError | TypeError | OverflowError | IntegrityError | IsADirectoryError

text \<open>
  How a route ends when it does not do its work: the redirect to the login page, the
  404 of \<open>get_or_404\<close>, a flashed message with a redirect (the validation failure),
  or an exception that no handler catches.
\<close>

datatype failure =
    LoginRedirect
  | NotFound404
  | ValidationFailure string
  | Raised exn

definition require_role :: "string list \<Rightarrow> session \<Rightarrow> bool" where
  "require_role roles ss = (case ss_role ss of None \<Rightarrow> False | Some r \<Rightarrow> r \<in> set roles)"

definition get_or :: "(string \<Rightarrow> string option) \<Rightarrow> string \<Rightarrow> string \<Rightarrow> string" where
  "get_or f k d = (case f k of None \<Rightarrow> d | Some v \<Rightarrow> v)"

definition truthy :: "string option \<Rightarrow> bool" where
  "truthy v = (case v of None \<Rightarrow> False | Some s \<Rightarrow> s \<noteq> [])"

text \<open>The next primary key SQLite gives a row: one more than the largest in the table.\<close>

definition next_id :: "int list \<Rightarrow> int" where
  "next_id ids = (if ids = [] then 1 else fold max (tl ids) (hd ids) + 1)"


section \<open>Ledger\<close>

text \<open>
  \<open>sum(x or 0 for ...)\<close> adds from the left, starting at 0, and reads a NULL as 0;
  every addition of two floats rounds (this is \<open>sum\<close> up to CPython 3.11; later
  versions compensate the rounding errors). \<open>sum(x for ...)\<close> without the guard
  raises \<open>TypeError\<close> at the first NULL; \<open>None\<close> is that error.
\<close>

definition or0 :: "pyfloat option \<Rightarrow> pyfloat" where
  "or0 v = (case v of None \<Rightarrow> Finite 0 | Some a \<Rightarrow> a)"

definition py_sum :: "pyfloat list \<Rightarrow> pyfloat" where
  "py_sum xs = foldl float_add (Finite 0) xs"

fun strict_from :: "pyfloat \<Rightarrow> pyfloat option list \<Rightarrow> pyfloat option" where
  "strict_from acc [] = Some acc"
| "strict_from acc (None # vs) = None"
| "strict_from acc (Some a # vs) = strict_from (float_add acc a) vs"

definition py_sum_strict :: "pyfloat option list \<Rightarrow> pyfloat option" where
  "py_sum_strict vs = strict_from (Finite 0) vs"

record totals =
  total_fee :: pyfloat
  total_paid :: pyfloat
  remaining :: pyfloat

definition patient_treatments :: "db \<Rightarrow> int \<Rightarrow> treatment_row list" where
  "patient_treatments d pid = filter (\<lambda>t. trt_patient_id t = pid) (db_treatments d)"

definition patient_payments :: "db \<Rightarrow> int \<Rightarrow> payment_row list" where
  "patient_payments d pid = filter (\<lambda>p. pay_patient_id p = pid) (db_payments d)"

text \<open>
  \<open>order_by(column.desc())\<close> on a text column. SQLite compares two texts byte by byte,
  a proper prefix being the smaller, and returns rows of equal keys in the order in
  which it read them, which is the order of the table.
\<close>

fun text_less :: "string \<Rightarrow> string \<Rightarrow> bool" where
  "text_less [] [] = False"
| "text_less [] (y # ys) = True"
| "text_less (x # xs) [] = False"
| "text_less (x # xs) (y # ys) =
     ((of_char x :: nat) < of_char y \<or> (x = y \<and> text_less xs ys))"

fun insert_desc :: "('a \<Rightarrow> string) \<Rightarrow> 'a \<Rightarrow> 'a list \<Rightarrow> 'a list" where
  "insert_desc key x [] = [x]"
| "insert_desc key x (y # ys) =
     (if text_less (key x) (key y) then y # insert_desc key x ys else x # y # ys)"

definition order_by_desc :: "('a \<Rightarrow> string) \<Rightarrow> 'a list \<Rightarrow> 'a list" where
  "order_by_desc key rows = foldr (insert_desc key) rows []"

text \<open>
  \<open>view_patient\<close> (behind \<open>login_required\<close>) and \<open>dashboard_patient\<close> read the
  treatments and the payments latest date first and compute the totals with the
  \<open>or 0\<close> guard.
\<close>

definition view_patient :: "session \<Rightarrow> db \<Rightarrow> int \<Rightarrow> failure + totals" where
  "view_patient ss d patient_id =
     (if ss_username ss = None then Inl LoginRedirect
      else
        (case find (\<lambda>p. pat_id p = patient_id) (db_patients d) of
           None \<Rightarrow> Inl NotFound404
         | Some patient \<Rightarrow>
             let treatments = order_by_desc trt_date (patient_treatments d (pat_id patient));
                 payments = order_by_desc pay_date (patient_payments d (pat_id patient));
                 fee = py_sum (map (\<lambda>t. or0 (trt_amount t)) treatments);
                 paid = py_sum (map (\<lambda>p. or0 (pay_amount_paid p)) payments)
             in Inr \<lparr>total_fee = fee, total_paid = paid, remaining = float_sub fee paid\<rparr>))"

definition dashboard_patient :: "session \<Rightarrow> db \<Rightarrow> failure + totals" where
  "dashboard_patient ss d =
     (if ss_role ss \<noteq> Some ''patient'' then Inl LoginRedirect
      else
        (case ss_username ss of
           None \<Rightarrow> Inl (ValidationFailure ''Patient record not found. Please contact the clinic.'')
         | Some username \<Rightarrow>
             (case find (\<lambda>p. pat_file_no p = username) (db_patients d) of
                None \<Rightarrow>
                  Inl (ValidationFailure ''Patient record not found. Please contact the clinic.'')
              | Some patient \<Rightarrow>
                  let treatments =
                        order_by_desc trt_date (patient_treatments d (pat_id patient));
                      payments = order_by_desc pay_date (patient_payments d (pat_id patient));
                      fee = py_sum (map (\<lambda>t. or0 (trt_amount t)) treatments);
                      paid = py_sum (map (\<lambda>p. or0 (pay_amount_paid p)) payments)
                  in Inr \<lparr>total_fee = fee, total_paid = paid,
                          remaining = float_sub fee paid\<rparr>)))"

text \<open>
  \<open>print_patient\<close> and \<open>print_payment_summary\<close> have no access check, read the rows
  in the order of the table and sum without the guard.
\<close>

definition print_patient :: "db \<Rightarrow> int \<Rightarrow> failure + totals" where
  "print_patient d patient_id =
     (case find (\<lambda>p. pat_id p = patient_id) (db_patients d) of
        None \<Rightarrow> Inl NotFound404
      | Some patient \<Rightarrow>
          (case py_sum_strict (map trt_amount (patient_treatments d (pat_id patient))) of
             None \<Rightarrow> Inl (Raised TypeError)
           | Some fee \<Rightarrow>
               (case py_sum_strict (map pay_amount_paid (patient_payments d (pat_id patient))) of
                  None \<Rightarrow> Inl (Raised TypeError)
                | Some paid \<Rightarrow>
                    Inr \<lparr>total_fee = fee, total_paid = paid,
                         remaining = float_sub fee paid\<rparr>)))"

definition print_payment_summary :: "db \<Rightarrow> int \<Rightarrow> failure + totals" where
  "print_payment_summary d patient_id =
     (case find (\<lambda>p. pat_id p = patient_id) (db_patients d) of
        None \<Rightarrow> Inl NotFound404
      | Some patient \<Rightarrow>
          (case py_sum_strict (map trt_amount (patient_treatments d (pat_id patient))) of
             None \<Rightarrow> Inl (Raised TypeError)
           | Some fee \<Rightarrow>
               (case py_sum_strict (map pay_amount_paid (patient_payments d (pat_id patient))) of
                  None \<Rightarrow> Inl (Raised TypeError)
                | Some paid \<Rightarrow>
                    Inr \<lparr>total_fee = fee, total_paid = paid,
                         remaining = float_sub fee paid\<rparr>)))"

text \<open>
  \<open>dashboard_main\<close>: the revenue is the unguarded sum over all payments; the loop over
  all patients adds \<open>max(0.0, total_treatments - total_paid)\<close> to \<open>total_outstanding\<close>,
  both sums unguarded. The search box only selects the patients listed on the page and
  is left out.
\<close>

record main_totals =
  total_revenue :: pyfloat
  total_outstanding :: pyfloat
  total_patients :: nat

fun outstanding_loop :: "db \<Rightarrow> pyfloat \<Rightarrow> patient_row list \<Rightarrow> pyfloat option" where
  "outstanding_loop d acc [] = Some acc"
| "outstanding_loop d acc (patient # rest) =
     (case py_sum_strict (map trt_amount (patient_treatments d (pat_id patient))) of
        None \<Rightarrow> None
      | Some total_treatments \<Rightarrow>
          (case py_sum_strict (map pay_amount_paid (patient_payments d (pat_id patient))) of
             None \<Rightarrow> None
           | Some paid \<Rightarrow>
               outstanding_loop d
                 (float_add acc (py_max (Finite 0) (float_sub total_treatments paid))) rest))"

definition dashboard_main :: "session \<Rightarrow> db \<Rightarrow> failure + main_totals" where
  "dashboard_main ss d =
     (if \<not> require_role [''doctor'', ''assistant''] ss then Inl LoginRedirect
      else
        (case py_sum_strict (map pay_amount_paid (db_payments d)) of
           None \<Rightarrow> Inl (Raised TypeError)
         | Some revenue \<Rightarrow>
             (case outstanding_loop d (Finite 0) (db_patients d) of
                None \<Rightarrow> Inl (Raised TypeError)
              | Some outstanding \<Rightarrow>
                  Inr \<lparr>total_revenue = revenue, total_outstanding = outstanding,
                       total_patients = length (db_patients d)\<rparr>)))"

text \<open>
  \<open>restamp\<close> overwrites the stored \<open>remaining_balance\<close> snapshot of every payment.
\<close>

definition restamp :: "(payment_row \<Rightarrow> pyfloat option) \<Rightarrow> db \<Rightarrow> db" where
  "restamp f d =
     d\<lparr>db_payments := map (\<lambda>p. p\<lparr>pay_remaining_balance := f p\<rparr>) (db_payments d)\<rparr>"

text \<open>
  What a patient adds to the total outstanding: the larger of 0 and the fees less the
  payments, a NULL counting as 0, the rows read in the order of the table.
\<close>

definition clamped_balance :: "db \<Rightarrow> patient_row \<Rightarrow> pyfloat" where
  "clamped_balance d p =
     py_max (Finite 0)
       (float_sub (py_sum (map or0 (map trt_amount (patient_treatments d (pat_id p)))))
          (py_sum (map or0 (map pay_amount_paid (patient_payments d (pat_id p))))))"


section \<open>Identifier generator\<close>

text \<open>
  \<open>str\<close> of an integer, and the format \<open>:02d\<close> of a count: at least two digits.
\<close>

definition digit_chr :: "nat \<Rightarrow> char" where
  "digit_chr n = char_of (48 + n)"

function str_nat :: "nat \<Rightarrow> string" where
  "str_nat n = (if n < 10 then [digit_chr n] else str_nat (n div 10) @ [digit_chr (n mod 10)])"
  by pat_completeness auto
termination
  by (relation "measure id") auto

declare str_nat.simps [simp del]

definition str_int :: "int \<Rightarrow> string" where
  "str_int i = (if i < 0 then CHR ''-'' # str_nat (nat (- i)) else str_nat (nat i))"

definition fmt_02d :: "nat \<Rightarrow> string" where
  "fmt_02d n = (if n < 10 then CHR ''0'' # str_nat n else str_nat n)"

text \<open>
  SQLite's \<open>LIKE\<close>: \<open>%\<close> stands for any run of characters, \<open>_\<close> for any one
  character, and the letters A to Z match in either case.
\<close>

definition chr_lower_ascii :: "char \<Rightarrow> char" where
  "chr_lower_ascii c =
     (let n = (of_char c :: nat) in if 65 \<le> n \<and> n \<le> 90 then char_of (n + 32) else c)"

fun sql_like :: "string \<Rightarrow> string \<Rightarrow> bool" where
  "sql_like [] s = (s = [])"
| "sql_like (p # ps) s =
     (if p = CHR ''%'' then
        (sql_like ps s \<or> (case s of [] \<Rightarrow> False | c # t \<Rightarrow> sql_like (p # ps) t))
      else
        (case s of
           [] \<Rightarrow> False
         | c # t \<Rightarrow>
             (p = CHR ''_'' \<or> chr_lower_ascii p = chr_lower_ascii c) \<and> sql_like ps t))"

definition case_prefix :: "int \<Rightarrow> string \<Rightarrow> string" where
  "case_prefix patient_id today = ''CASE-'' @ str_int patient_id @ ''-'' @ today"

definition count_cases_like :: "db \<Rightarrow> int \<Rightarrow> string \<Rightarrow> nat" where
  "count_cases_like d patient_id prefix =
     length (filter (\<lambda>c. cas_patient_id c = patient_id
                          \<and> sql_like (prefix @ ''%'') (cas_case_id c)) (db_cases d))"

text \<open>The method \<open>Case.generate_case_id\<close>, the only method the class defines.\<close>

definition generate_case_id :: "env \<Rightarrow> db \<Rightarrow> case_row \<Rightarrow> case_row" where
  "generate_case_id e d self =
     (let today = env_today_compact e;
          prefix = case_prefix (cas_patient_id self) today;
          count_today = count_cases_like d (cas_patient_id self) prefix;
          next_number = count_today + 1
      in self\<lparr>cas_case_id := prefix @ ''-'' @ fmt_02d next_number\<rparr>)"

definition case_methods :: "string \<Rightarrow> (env \<Rightarrow> db \<Rightarrow> case_row \<Rightarrow> case_row) option" where
  "case_methods name = (if name = ''generate_case_id'' then Some generate_case_id else None)"

text \<open>
  Adding a case and committing: \<open>case_id\<close> is declared unique, so a second row with
  the same identifier is an \<open>IntegrityError\<close>.
\<close>

definition insert_case :: "db \<Rightarrow> case_row \<Rightarrow> exn + (case_row \<times> db)" where
  "insert_case d c =
     (if cas_case_id c \<in> set (map cas_case_id (db_cases d)) then Inl IntegrityError
      else
        let row = c\<lparr>cas_id := next_id (map cas_id (db_cases d))\<rparr>
        in Inr (row, d\<lparr>db_cases := db_cases d @ [row]\<rparr>))"

definition or_empty :: "string option \<Rightarrow> string" where
  "or_empty v = (case v of None \<Rightarrow> [] | Some s \<Rightarrow> s)"

text \<open>
  The route \<open>add_case\<close>. After building the case it calls \<open>case.generate_case_no()\<close>;
  the attribute is looked up among the methods of the class.
\<close>

definition add_case ::
  "env \<Rightarrow> session \<Rightarrow> request \<Rightarrow> db \<Rightarrow> int \<Rightarrow> (failure + case_row option) \<times> db" where
  "add_case e ss rq d patient_id =
     (if \<not> require_role [''doctor'', ''assistant''] ss then (Inl LoginRedirect, d)
      else
        (case find (\<lambda>p. pat_id p = patient_id) (db_patients d) of
           None \<Rightarrow> (Inl NotFound404, d)
         | Some patient \<Rightarrow>
             if rq_method rq = ''POST'' then
               (let case0 =
                      \<lparr>cas_id = 0, cas_case_id = [],
                       cas_title = Some (or_empty (rq_form rq ''title'')),
                       cas_chief_complaint = Some (or_empty (rq_form rq ''chief_complaint'')),
                       cas_diagnosis = Some (or_empty (rq_form rq ''diagnosis'')),
                       cas_treatment_plan = Some (or_empty (rq_form rq ''treatment_plan'')),
                       cas_status = ''Active'', cas_patient_id = pat_id patient\<rparr>
                in (case case_methods ''generate_case_no'' of
                      None \<Rightarrow> (Inl (Raised AttributeError), d)
                    | Some generate \<Rightarrow>
                        (case insert_case d (generate e d case0) of
                           Inl x \<Rightarrow> (Inl (Raised x), d)
                         | Inr (row, d') \<Rightarrow> (Inr (Some row), d'))))
             else (Inr None, d)))"


section \<open>File uploads\<close>

definition ALLOWED_EXTENSIONS :: "string list" where
  "ALLOWED_EXTENSIONS = [''png'', ''jpg'', ''jpeg'', ''pdf'']"

text \<open>\<open>filename.rsplit(".", 1)[1]\<close>: what follows the last dot.\<close>

definition rsplit_ext :: "string \<Rightarrow> string" where
  "rsplit_ext filename = rev (takeWhile (\<lambda>c. c \<noteq> CHR ''.'') (rev filename))"

definition allowed_file :: "string \<Rightarrow> bool" where
  "allowed_file filename =
     (CHR ''.'' \<in> set filename \<and> lower (rsplit_ext filename) \<in> set ALLOWED_EXTENSIONS)"

text \<open>
  The name three routes store a file under: the time stamp, a draw of
  \<open>random.randint(1000, 9999)\<close> and the sanitised name, joined by underscores.
\<close>

definition unique_name :: "env \<Rightarrow> nat \<Rightarrow> string \<Rightarrow> string" where
  "unique_name e k filename =
     env_now_stamp e @ ''_'' @ str_nat (env_randint e k) @ ''_'' @ env_secure_filename e filename"

definition save_file :: "string \<Rightarrow> db \<Rightarrow> db" where
  "save_file name d = d\<lparr>db_uploads := List.insert name (db_uploads d)\<rparr>"



section \<open>Adding a treatment\<close>

text \<open>
  \<open>db.session.get(Model, n)\<close> hands \<open>n\<close> to SQLite, and the driver raises
  \<open>OverflowError\<close> for an integer outside the 64-bit range.
\<close>

definition session_get :: "('a \<Rightarrow> int) \<Rightarrow> 'a list \<Rightarrow> int \<Rightarrow> exn + 'a option" where
  "session_get key rows n =
     (if n < - (2 ^ 63) \<or> 2 ^ 63 \<le> n then Inl OverflowError
      else Inr (find (\<lambda>x. key x = n) rows))"

text \<open>
  The visit validation of \<open>add_treatment\<close>: the visit id is the form field if
  \<open>isdigit\<close> accepts it, else the query argument if \<open>isdigit\<close> accepts that, else
  nothing; \<open>int\<close> of it is looked up among the visits.
\<close>

definition resolve_visit :: "request \<Rightarrow> db \<Rightarrow> exn + visit_row option" where
  "resolve_visit rq d =
     (let raw_post_visit = get_or (rq_form rq) ''visit_id'' [];
          raw_query_visit = get_or (rq_args rq) ''visit_id'' [];
          visit_id =
            (if isdigit raw_post_visit then Some raw_post_visit
             else if isdigit raw_query_visit then Some raw_query_visit
             else None)
      in (case visit_id of
            None \<Rightarrow> Inr None
          | Some v \<Rightarrow>
              (case py_int v of
                 None \<Rightarrow> Inl ValueError
               | Some n \<Rightarrow> session_get vis_id (db_visits d) n)))"

text \<open>\<open>float(request.form.get(name) or 0)\<close>.\<close>

definition form_float :: "env \<Rightarrow> string option \<Rightarrow> pyfloat option" where
  "form_float e v =
     (case v of
        None \<Rightarrow> Some (Finite 0)
      | Some s \<Rightarrow> if s = [] then Some (Finite 0) else env_float e s)"

text \<open>\<open>int(x) if x and x.isdigit() else None\<close>.\<close>

definition form_int :: "string option \<Rightarrow> exn + int option" where
  "form_int v =
     (case v of
        None \<Rightarrow> Inr None
      | Some s \<Rightarrow>
          if s \<noteq> [] \<and> isdigit s then
            (case py_int s of None \<Rightarrow> Inl ValueError | Some n \<Rightarrow> Inr (Some n))
          else Inr None)"

text \<open>
  The case identifier of a new treatment: the manual entry, else the selected case, else
  the next generated identifier of the patient and the day.
\<close>

definition select_case_id :: "env \<Rightarrow> db \<Rightarrow> patient_row \<Rightarrow> string \<Rightarrow> string \<Rightarrow> string" where
  "select_case_id e d patient selected_case manual_case =
     (if manual_case \<noteq> [] then manual_case
      else if selected_case \<noteq> [] then selected_case
      else
        let today = env_today_compact e;
            prefix = case_prefix (pat_id patient) today;
            count = count_cases_like d (pat_id patient) prefix
        in prefix @ ''-'' @ fmt_02d (count + 1))"

text \<open>The case of that identifier is created for the patient unless the patient has it.\<close>

definition ensure_case :: "db \<Rightarrow> patient_row \<Rightarrow> string \<Rightarrow> exn + db" where
  "ensure_case d patient case_id =
     (case find (\<lambda>c. cas_case_id c = case_id \<and> cas_patient_id c = pat_id patient) (db_cases d) of
        Some existing_case \<Rightarrow> Inr d
      | None \<Rightarrow>
          (case insert_case d
                  \<lparr>cas_id = 0, cas_case_id = case_id, cas_title = Some (''Case '' @ case_id),
                   cas_chief_complaint = None, cas_diagnosis = None, cas_treatment_plan = None,
                   cas_status = ''Active'', cas_patient_id = pat_id patient\<rparr> of
             Inl x \<Rightarrow> Inl x
           | Inr (new_case, d') \<Rightarrow> Inr d'))"

text \<open>
  Creating cases one after the other with neither a selected nor a manual identifier:
  the case block of \<open>add_treatment\<close>, run \<open>n\<close> times.
\<close>

fun create_cases :: "env \<Rightarrow> patient_row \<Rightarrow> nat \<Rightarrow> db \<Rightarrow> exn + db" where
  "create_cases e patient 0 d = Inr d"
| "create_cases e patient (Suc n) d =
     (case ensure_case d patient (select_case_id e d patient [] []) of
        Inl x \<Rightarrow> Inl x
      | Inr d' \<Rightarrow> create_cases e patient n d')"

text \<open>
  \<open>db.session.get(Dentist, dentist_id).name if dentist_id else session.get("username")\<close>:
  a dentist id that names no dentist is an \<open>AttributeError\<close> on \<open>None\<close>.
\<close>

definition dentist_name :: "session \<Rightarrow> db \<Rightarrow> int option \<Rightarrow> exn + string option" where
  "dentist_name ss d dentist_id =
     (case dentist_id of
        None \<Rightarrow> Inr (ss_username ss)
      | Some n \<Rightarrow>
          if n = 0 then Inr (ss_username ss)
          else
            (case session_get den_id (db_dentists d) n of
               Inl x \<Rightarrow> Inl x
             | Inr None \<Rightarrow> Inl AttributeError
             | Inr (Some dentist) \<Rightarrow> Inr (Some (den_name dentist))))"

datatype treatment_reply = TreatmentForm pyfloat | TreatmentAdded treatment_row

text \<open>
  The body of the POST. Each \<open>commit\<close> of the source is a point after which an
  exception leaves the rows written so far in the database. The amounts are written
  through \<open>store_float\<close>, and the previous totals are read back from the tables.
\<close>

definition add_treatment_post ::
  "env \<Rightarrow> session \<Rightarrow> request \<Rightarrow> db \<Rightarrow> patient_row \<Rightarrow> visit_row
     \<Rightarrow> (failure + treatment_reply) \<times> db" where
  "add_treatment_post e ss rq d patient visit =
     (let form = rq_form rq;
          tooth_number =
            (if truthy (form ''tooth_number'') then form ''tooth_number''
             else form ''multi_tooth'');
          next_appt = form ''next_appointment''
      in (case form_float e (form ''treatment_fee'') of
            None \<Rightarrow> (Inl (Raised ValueError), d)
          | Some fee \<Rightarrow>
          (case form_float e (form ''amount_received'') of
            None \<Rightarrow> (Inl (Raised ValueError), d)
          | Some paid \<Rightarrow>
          (let selected_case = strip (get_or form ''case_id'' []);
               manual_case = strip (get_or form ''case_id_manual'' []);
               case_id = select_case_id e d patient selected_case manual_case
           in (case ensure_case d patient case_id of
                 Inl x \<Rightarrow> (Inl (Raised x), d)
               | Inr d1 \<Rightarrow>
               (case form_int (form ''dentist_id'') of
                 Inl x \<Rightarrow> (Inl (Raised x), d1)
               | Inr dentist_id \<Rightarrow>
               (case dentist_name ss d1 dentist_id of
                 Inl x \<Rightarrow> (Inl (Raised x), d1)
               | Inr doctor \<Rightarrow>
               (let today_str = env_today_dashed e;
                    treatment =
                      \<lparr>trt_id = next_id (map trt_id (db_treatments d1)),
                       trt_treatment_category = form ''treatment_category'',
                       trt_treatment_type = form ''treatment_type'',
                       trt_date = today_str,
                       trt_notes = form ''treatment'',
                       trt_amount = store_float fee,
                       trt_next_appointment = next_appt,
                       trt_status = (if \<not> truthy next_appt then ''Completed'' else ''Ongoing''),
                       trt_tooth_number = tooth_number,
                       trt_doctor = doctor,
                       trt_dentist_id = dentist_id,
                       trt_patient_id = pat_id patient,
                       trt_case_id = env_integer_affinity e case_id,
                       trt_visit_id = vis_id visit\<rparr>;
                    d2 = d1\<lparr>db_treatments := db_treatments d1 @ [treatment]\<rparr>;
                    prev_paid =
                      py_sum (map (\<lambda>p. or0 (pay_amount_paid p))
                                (patient_payments d2 (pat_id patient)));
                    prev_fee =
                      py_sum (map (\<lambda>t. or0 (trt_amount t))
                                (patient_treatments d2 (pat_id patient)));
                    balance = float_sub prev_fee prev_paid;
                    payment =
                      \<lparr>pay_id = next_id (map pay_id (db_payments d2)),
                       pay_patient_id = pat_id patient,
                       pay_treatment_id = Some (trt_id treatment),
                       pay_case_id = env_integer_affinity e case_id,
                       pay_date = today_str,
                       pay_treatment_fee = store_float fee,
                       pay_amount_paid = store_float paid,
                       pay_remaining_balance = store_float balance\<rparr>;
                    d3 = d2\<lparr>db_payments := db_payments d2 @ [payment]\<rparr>;
                    d4 =
                      (case rq_files rq ''attachment'' of
                         None \<Rightarrow> d3
                       | Some filename \<Rightarrow>
                           if filename \<noteq> [] \<and> allowed_file filename then
                             (let unique = unique_name e 0 filename;
                                  d' = save_file unique d3
                              in d'\<lparr>db_radiographs := db_radiographs d' @
                                    [\<lparr>rad_id = next_id (map rad_id (db_radiographs d')),
                                      rad_patient_id = pat_id patient,
                                      rad_treatment_id = Some (trt_id treatment),
                                      rad_case_id = env_integer_affinity e case_id,
                                      rad_filename = unique,
                                      rad_uploaded_by = ss_username ss,
                                      rad_uploaded_at = env_now_minute e\<rparr>]\<rparr>)
                           else d3)
                in (Inr (TreatmentAdded treatment), d4)))))))))"

definition visit_rejected :: failure where
  "visit_rejected = ValidationFailure ''Please select a valid visit first.''"

definition add_treatment ::
  "env \<Rightarrow> session \<Rightarrow> request \<Rightarrow> db \<Rightarrow> int \<Rightarrow> (failure + treatment_reply) \<times> db" where
  "add_treatment e ss rq d patient_id =
     (if \<not> require_role [''doctor'', ''assistant''] ss then (Inl LoginRedirect, d)
      else
        (case find (\<lambda>p. pat_id p = patient_id) (db_patients d) of
           None \<Rightarrow> (Inl NotFound404, d)
         | Some patient \<Rightarrow>
             (case resolve_visit rq d of
                Inl x \<Rightarrow> (Inl (Raised x), d)
              | Inr None \<Rightarrow> (Inl visit_rejected, d)
              | Inr (Some visit) \<Rightarrow>
                  if vis_patient_id visit \<noteq> pat_id patient then (Inl visit_rejected, d)
                  else if rq_method rq = ''POST'' then add_treatment_post e ss rq d patient visit
                  else
                    (let prev_paid =
                           py_sum (map (\<lambda>p. or0 (pay_amount_paid p))
                                     (patient_payments d (pat_id patient)));
                         prev_fee =
                           py_sum (map (\<lambda>t. or0 (trt_amount t))
                                     (patient_treatments d (pat_id patient)));
                         balance = float_sub prev_fee prev_paid
                     in (Inr (TreatmentForm balance), d)))))"

text \<open>
  The relationship \<open>Case.treatments\<close> and the query of \<open>view_case\<close> join a treatment
  to the case whose integer primary key its \<open>case_id\<close> column holds.
\<close>

definition case_treatments :: "db \<Rightarrow> case_row \<Rightarrow> treatment_row list" where
  "case_treatments d c = filter (\<lambda>t. trt_case_id t = SqlInt (cas_id c)) (db_treatments d)"

text \<open>
  An instance of the conversion SQLite applies to a text written to an INTEGER column:
  a text made of an optional sign and decimal digits, blanks around it allowed, is
  stored as that integer, and any other text that does not read as a number stays
  text. Texts that read as a real number are converted by SQLite as well; this
  instance is not meant for them.
\<close>

definition chr_isblank_sqlite :: "char \<Rightarrow> bool" where
  "chr_isblank_sqlite c = (let n = (of_char c :: nat) in (9 \<le> n \<and> n \<le> 13) \<or> n = 32)"

definition sqlite_integer_affinity :: "string \<Rightarrow> sqlval" where
  "sqlite_integer_affinity s =
     (let t = rev (dropWhile chr_isblank_sqlite (rev (dropWhile chr_isblank_sqlite s)));
          body = (case t of [] \<Rightarrow> [] | c # cs \<Rightarrow> if c = CHR ''-'' \<or> c = CHR ''+'' then cs else t);
          negative = (case t of [] \<Rightarrow> False | c # cs \<Rightarrow> c = CHR ''-'')
      in if body \<noteq> [] \<and> list_all chr_isdecimal body then
           (let n = foldl (\<lambda>acc c. 10 * acc + int (chr_value c)) 0 body;
                v = (if negative then - n else n)
            in if - (2 ^ 63) \<le> v \<and> v < 2 ^ 63 then SqlInt v
               else SqlReal (round_double (of_int v)))
         else SqlText s)"


section \<open>Follow-ups\<close>

datatype followup_reply = FollowupForm | FollowupAdded followup_row

text \<open>
  \<open>add_followup\<close> has no access check. The attachment is saved under its sanitised
  name as it is; an empty sanitised name makes the path the upload folder itself, which
  cannot be opened for writing. A follow-up sent without a status is stored with the
  default of the column, \<open>Ongoing\<close>; the branches below read the form value. The
  treatment model has no \<open>updated_at\<close> attribute, so the \<open>hasattr\<close> branch never
  runs.
\<close>

definition add_followup ::
  "env \<Rightarrow> request \<Rightarrow> db \<Rightarrow> int \<Rightarrow> (failure + followup_reply) \<times> db" where
  "add_followup e rq d treatment_id =
     (case find (\<lambda>t. trt_id t = treatment_id) (db_treatments d) of
        None \<Rightarrow> (Inl NotFound404, d)
      | Some treatment \<Rightarrow>
          if rq_method rq = ''POST'' then
            (let notes = strip (get_or (rq_form rq) ''notes'' []);
                 status = rq_form rq ''status'';
                 next_appointment = get_or (rq_form rq) ''next_appointment'' [];
                 update_flag = rq_form rq ''update_treatment_status''
             in if notes = [] then
                  (Inl (ValidationFailure ''Follow-up notes are required.''), d)
                else
                  (let attachment_file = rq_files rq ''attachment'';
                       attachment_filename =
                         (if truthy attachment_file
                          then Some (env_secure_filename e (or_empty attachment_file))
                          else None);
                       d1 = (case attachment_filename of
                               None \<Rightarrow> d
                             | Some filename \<Rightarrow> save_file filename d)
                   in if attachment_filename = Some [] then (Inl (Raised IsADirectoryError), d)
                      else
                  (let followup =
                         \<lparr>fu_id = next_id (map fu_id (db_followups d1)),
                          fu_notes = notes,
                          fu_next_appointment =
                            (if status = Some ''Ongoing'' then Some next_appointment else None),
                          fu_status =
                            (case status of None \<Rightarrow> Some ''Ongoing'' | Some s \<Rightarrow> Some s),
                          fu_attachment = attachment_filename,
                          fu_treatment_id = trt_id treatment\<rparr>;
                       d2 = d1\<lparr>db_followups := db_followups d1 @ [followup]\<rparr>;
                       treatment' =
                         (if update_flag = Some ''1'' then
                            treatment\<lparr>trt_status := ''Completed'', trt_next_appointment := None\<rparr>
                          else if status = Some ''Ongoing'' \<and> next_appointment \<noteq> [] then
                            treatment\<lparr>trt_next_appointment := Some next_appointment\<rparr>
                          else treatment);
                       d3 = d2\<lparr>db_treatments :=
                                 map (\<lambda>t. if trt_id t = trt_id treatment then treatment' else t)
                                   (db_treatments d2)\<rparr>
                   in (Inr (FollowupAdded followup), d3))))
          else (Inr FollowupForm, d))"


section \<open>Visits and patient files\<close>

definition add_visit ::
  "env \<Rightarrow> session \<Rightarrow> request \<Rightarrow> db \<Rightarrow> int \<Rightarrow> (failure + visit_row option) \<times> db" where
  "add_visit e ss rq d patient_id =
     (if \<not> require_role [''doctor'', ''assistant''] ss then (Inl LoginRedirect, d)
      else
        (case find (\<lambda>p. pat_id p = patient_id) (db_patients d) of
           None \<Rightarrow> (Inl NotFound404, d)
         | Some patient \<Rightarrow>
             if rq_method rq = ''POST'' then
               (let visit_date =
                      (if truthy (rq_form rq ''visit_date'') then or_empty (rq_form rq ''visit_date'')
                       else env_today_dashed e)
                in (case form_int (rq_form rq ''dentist_id'') of
                      Inl x \<Rightarrow> (Inl (Raised x), d)
                    | Inr dentist_id \<Rightarrow>
                        (let file = rq_files rq ''attachment'';
                             stored =
                               (if truthy file \<and> allowed_file (or_empty file)
                                then Some (unique_name e 0 (or_empty file)) else None);
                             d1 = (case stored of None \<Rightarrow> d | Some unique \<Rightarrow> save_file unique d);
                             v = \<lparr>vis_id = next_id (map vis_id (db_visits d1)),
                                  vis_visit_date = visit_date,
                                  vis_patient_id = pat_id patient,
                                  vis_doctor_id = dentist_id,
                                  vis_attachment = stored\<rparr>
                         in (Inr (Some v), d1\<lparr>db_visits := db_visits d1 @ [v]\<rparr>))))
             else (Inr None, d)))"

text \<open>
  \<open>upload_file\<close> takes the list of files of the field \<open>files\<close>. Each file that has a
  name and passes \<open>allowed_file\<close> is saved under a unique name with a radiograph row;
  the others are skipped.
\<close>

fun upload_loop :: "env \<Rightarrow> session \<Rightarrow> patient_row \<Rightarrow> nat \<Rightarrow> string list \<Rightarrow> db \<Rightarrow> db" where
  "upload_loop e ss patient k [] d = d"
| "upload_loop e ss patient k (filename # rest) d =
     (if filename \<noteq> [] \<and> allowed_file filename then
        (let unique_name = unique_name e k filename;
             d' = save_file unique_name d
         in upload_loop e ss patient (Suc k) rest
              (d'\<lparr>db_radiographs := db_radiographs d' @
                   [\<lparr>rad_id = next_id (map rad_id (db_radiographs d')),
                     rad_patient_id = pat_id patient,
                     rad_treatment_id = None,
                     rad_case_id = SqlNull,
                     rad_filename = unique_name,
                     rad_uploaded_by = ss_username ss,
                     rad_uploaded_at = env_now_minute e\<rparr>]\<rparr>))
      else upload_loop e ss patient k rest d)"

definition upload_file ::
  "env \<Rightarrow> session \<Rightarrow> string \<Rightarrow> string list \<Rightarrow> db \<Rightarrow> int \<Rightarrow> failure option \<times> db" where
  "upload_file e ss method files d patient_id =
     (if \<not> require_role [''doctor'', ''assistant''] ss then (Some LoginRedirect, d)
      else
        (case find (\<lambda>p. pat_id p = patient_id) (db_patients d) of
           None \<Rightarrow> (Some NotFound404, d)
         | Some patient \<Rightarrow>
             if method = ''POST'' then
               (if files = [] \<or> list_all (\<lambda>f. f = []) files
                then (Some (ValidationFailure ''No files selected.''), d)
                else (None, upload_loop e ss patient 0 files d))
             else (None, d)))"


section \<open>Deleting a patient\<close>

text \<open>
  \<open>db.session.delete\<close> follows the relationships declared with
  \<open>cascade="all, delete-orphan"\<close>: a treatment takes its follow-ups with it, a case its
  treatments, a visit its treatments and its prescription, a prescription its items;
  each row is deleted by its primary key. The relationships from a treatment to its
  payments and radiographs carry no delete cascade, so the ORM sets their
  \<open>treatment_id\<close> to NULL. \<open>Visit.prescription\<close> is a scalar relationship
  (\<open>uselist=False\<close>, the column \<open>visit_id\<close> being declared unique): the cascade
  takes the one prescription that the query for the visit returns. No route ever writes
  \<open>parent_treatment_id\<close>, so the cascade over sub-treatments finds nothing and the
  column is left out.
\<close>

definition orm_delete_treatment :: "int \<Rightarrow> db \<Rightarrow> db" where
  "orm_delete_treatment tid d =
     d\<lparr>db_followups := filter (\<lambda>f. fu_treatment_id f \<noteq> tid) (db_followups d),
       db_payments :=
         map (\<lambda>p. if pay_treatment_id p = Some tid then p\<lparr>pay_treatment_id := None\<rparr> else p)
           (db_payments d),
       db_radiographs :=
         map (\<lambda>f. if rad_treatment_id f = Some tid then f\<lparr>rad_treatment_id := None\<rparr> else f)
           (db_radiographs d),
       db_treatments := filter (\<lambda>t. trt_id t \<noteq> tid) (db_treatments d)\<rparr>"

definition orm_delete_case :: "case_row \<Rightarrow> db \<Rightarrow> db" where
  "orm_delete_case c d =
     (let d1 = fold orm_delete_treatment (map trt_id (case_treatments d c)) d
      in d1\<lparr>db_cases := filter (\<lambda>x. cas_id x \<noteq> cas_id c) (db_cases d1)\<rparr>)"

definition orm_delete_prescription :: "prescription_row \<Rightarrow> db \<Rightarrow> db" where
  "orm_delete_prescription r d =
     d\<lparr>db_items := filter (\<lambda>i. itm_prescription_id i \<noteq> rx_id r) (db_items d),
       db_prescriptions := filter (\<lambda>x. rx_id x \<noteq> rx_id r) (db_prescriptions d)\<rparr>"

definition orm_delete_visit :: "visit_row \<Rightarrow> db \<Rightarrow> db" where
  "orm_delete_visit v d =
     (let d1 = fold orm_delete_treatment
                 (map trt_id (filter (\<lambda>t. trt_visit_id t = vis_id v) (db_treatments d))) d;
          d2 = (case find (\<lambda>r. rx_visit_id r = vis_id v) (db_prescriptions d1) of
                  None \<Rightarrow> d1
                | Some prescription \<Rightarrow> orm_delete_prescription prescription d1)
      in d2\<lparr>db_visits := filter (\<lambda>x. vis_id x \<noteq> vis_id v) (db_visits d2)\<rparr>)"

text \<open>
  \<open>db.session.delete(patient)\<close>. \<open>Patient.treatments\<close> is declared \<open>lazy='joined'\<close>, so
  the collection was filled when the patient was loaded; the cascade runs over those
  treatment objects (\<open>loaded\<close>) and, through them, over their follow-ups, whether or not
  their rows are still in the table. The cases and visits are read when the cascade runs.
\<close>

definition orm_delete_patient :: "patient_row \<Rightarrow> treatment_row list \<Rightarrow> db \<Rightarrow> db" where
  "orm_delete_patient patient loaded d =
     (let d1 = fold orm_delete_case
                 (filter (\<lambda>c. cas_patient_id c = pat_id patient) (db_cases d)) d;
          d2 = fold orm_delete_treatment (map trt_id loaded) d1;
          d3 = fold orm_delete_visit
                 (filter (\<lambda>v. vis_patient_id v = pat_id patient) (db_visits d2)) d2
      in d3\<lparr>db_patients := filter (\<lambda>p. pat_id p \<noteq> pat_id patient) (db_patients d3)\<rparr>)"

text \<open>
  The route \<open>delete_patient\<close>: two bulk deletes (\<open>Query.delete()\<close>, which removes the
  rows and cascades nothing), the radiographs with their files, the login, and the
  patient through the session.
\<close>

definition delete_patient :: "session \<Rightarrow> db \<Rightarrow> int \<Rightarrow> failure option \<times> db" where
  "delete_patient ss d patient_id =
     (if \<not> require_role [''doctor'', ''assistant''] ss then (Some LoginRedirect, d)
      else
        (case find (\<lambda>p. pat_id p = patient_id) (db_patients d) of
           None \<Rightarrow> (Some NotFound404, d)
         | Some patient \<Rightarrow>
             (let loaded = patient_treatments d (pat_id patient);
                  d1 = d\<lparr>db_treatments :=
                          filter (\<lambda>t. trt_patient_id t \<noteq> pat_id patient) (db_treatments d)\<rparr>;
                  d2 = d1\<lparr>db_payments :=
                           filter (\<lambda>p. pay_patient_id p \<noteq> pat_id patient) (db_payments d1)\<rparr>;
                  files = filter (\<lambda>f. rad_patient_id f = pat_id patient) (db_radiographs d2);
                  d3 = d2\<lparr>db_uploads :=
                            filter (\<lambda>n. n \<notin> set (map rad_filename files)) (db_uploads d2),
                          db_radiographs :=
                            filter (\<lambda>f. rad_patient_id f \<noteq> pat_id patient) (db_radiographs d2)\<rparr>;
                  d4 = (case find (\<lambda>u. usr_username u = pat_file_no patient
                                          \<and> usr_role u = ''patient'') (db_users d3) of
                          None \<Rightarrow> d3
                        | Some user \<Rightarrow>
                            d3\<lparr>db_users := filter (\<lambda>u. usr_id u \<noteq> usr_id user) (db_users d3)\<rparr>);
                  d5 = orm_delete_patient patient loaded d4
              in (None, d5))))"


text \<open>
  Two relations between a database and a later one, used to follow a deletion through
  its steps. \<open>items_follow d d'\<close>: every prescription of \<open>d\<close> is still in \<open>d'\<close>, or no
  item of \<open>d'\<close> refers to it. \<open>shrinks d d'\<close>: no table of rows has gained a row, the
  payments and radiographs of \<open>d'\<close> belong to patients that had some in \<open>d\<close>, no file
  has appeared, and the items follow their prescriptions.
\<close>

definition items_follow :: "db \<Rightarrow> db \<Rightarrow> bool" where
  "items_follow d d' =
     list_all (\<lambda>r. r \<in> set (db_prescriptions d')
                 \<or> list_all (\<lambda>i. itm_prescription_id i \<noteq> rx_id r) (db_items d'))
       (db_prescriptions d)"

definition shrinks :: "db \<Rightarrow> db \<Rightarrow> bool" where
  "shrinks d d' =
     (set (db_users d') \<subseteq> set (db_users d)
      \<and> set (db_patients d') \<subseteq> set (db_patients d)
      \<and> set (db_cases d') \<subseteq> set (db_cases d)
      \<and> set (db_visits d') \<subseteq> set (db_visits d)
      \<and> set (db_prescriptions d') \<subseteq> set (db_prescriptions d)
      \<and> set (db_items d') \<subseteq> set (db_items d)
      \<and> set (db_treatments d') \<subseteq> set (db_treatments d)
      \<and> set (db_followups d') \<subseteq> set (db_followups d)
      \<and> pay_patient_id ` set (db_payments d') \<subseteq> pay_patient_id ` set (db_payments d)
      \<and> rad_patient_id ` set (db_radiographs d') \<subseteq> rad_patient_id ` set (db_radiographs d)
      \<and> set (db_uploads d') \<subseteq> set (db_uploads d)
      \<and> items_follow d d')"


text \<open>
  The identifier the specification writes \<open>CASE-<pid>-<date>-NN\<close>, and the row
  \<open>add_treatment\<close> creates for a case identifier that the patient does not have yet.
\<close>

definition generated_id :: "env \<Rightarrow> patient_row \<Rightarrow> nat \<Rightarrow> string" where
  "generated_id e patient k =
     case_prefix (pat_id patient) (env_today_compact e) @ ''-'' @ fmt_02d k"

definition new_case :: "db \<Rightarrow> patient_row \<Rightarrow> string \<Rightarrow> case_row" where
  "new_case d patient case_id =
     \<lparr>cas_id = next_id (map cas_id (db_cases d)), cas_case_id = case_id,
      cas_title = Some (''Case '' @ case_id), cas_chief_complaint = None,
      cas_diagnosis = None, cas_treatment_plan = None, cas_status = ''Active'',
      cas_patient_id = pat_id patient\<rparr>"

text \<open>The number a string of decimal digits stands for.\<close>

definition digits_value :: "string \<Rightarrow> nat" where
  "digits_value s = foldl (\<lambda>acc c. 10 * acc + chr_value c) 0 s"


section \<open>Example data\<close>

text \<open>
  A clinic with two patients, used where a theorem is applied to a concrete state. The
  environment is the first of January 2025; its \<open>float\<close> is Python's on the texts used
  below, integer numerals (which \<open>float\<close> reads as \<open>int\<close> does, without the limit on
  the digits, and rounds) and \<open>nan\<close>; its \<open>secure_filename\<close> returns a name that is
  already safe as it is.
\<close>

definition float_of_integer_literal :: "string \<Rightarrow> pyfloat option" where
  "float_of_integer_literal s =
     (if s = ''nan'' then Some NaN
      else map_option (\<lambda>n. round_double (of_int n)) (int_literal s))"

definition env0 :: env where
  "env0 =
     \<lparr>env_today_compact = ''20250101'', env_today_dashed = ''2025-01-01'',
      env_now_stamp = ''20250101093000'', env_now_minute = ''2025-01-01 09:30'',
      env_randint = (\<lambda>k. 4821 + k), env_secure_filename = (\<lambda>s. s),
      env_float = float_of_integer_literal,
      env_integer_affinity = sqlite_integer_affinity\<rparr>"

definition doctor_session :: session where
  "doctor_session = \<lparr>ss_username = Some ''doctor'', ss_role = Some ''doctor''\<rparr>"

definition patient_session :: session where
  "patient_session = \<lparr>ss_username = Some ''10001'', ss_role = Some ''patient''\<rparr>"

definition patient1 :: patient_row where
  "patient1 = \<lparr>pat_id = 1, pat_file_no = ''10001'', pat_full_name = Some ''Amna''\<rparr>"

definition patient2 :: patient_row where
  "patient2 = \<lparr>pat_id = 2, pat_file_no = ''10002'', pat_full_name = Some ''Bilal''\<rparr>"

definition visit1 :: visit_row where
  "visit1 = \<lparr>vis_id = 1, vis_visit_date = ''2025-01-01'', vis_patient_id = 1,
             vis_doctor_id = None, vis_attachment = None\<rparr>"

definition visit2 :: visit_row where
  "visit2 = \<lparr>vis_id = 2, vis_visit_date = ''2025-01-01'', vis_patient_id = 2,
             vis_doctor_id = None, vis_attachment = None\<rparr>"

definition case_of_patient2 :: case_row where
  "case_of_patient2 =
     \<lparr>cas_id = 1, cas_case_id = ''CASE-2-20250101-01'', cas_title = None,
      cas_chief_complaint = None, cas_diagnosis = None, cas_treatment_plan = None,
      cas_status = ''Active'', cas_patient_id = 2\<rparr>"

definition case_of_patient1 :: case_row where
  "case_of_patient1 =
     \<lparr>cas_id = 2, cas_case_id = ''CASE-1-20241231-01'', cas_title = None,
      cas_chief_complaint = None, cas_diagnosis = None, cas_treatment_plan = None,
      cas_status = ''Active'', cas_patient_id = 1\<rparr>"

text \<open>The clinic before any treatment.\<close>

definition db0 :: db where
  "db0 =
     \<lparr>db_users = [\<lparr>usr_id = 1, usr_username = ''10001'', usr_role = ''patient''\<rparr>,
                  \<lparr>usr_id = 2, usr_username = ''10002'', usr_role = ''patient''\<rparr>],
      db_patients = [patient1, patient2],
      db_cases = [case_of_patient2],
      db_visits = [visit1, visit2],
      db_prescriptions = [], db_items = [], db_treatments = [], db_followups = [],
      db_dentists = [], db_payments = [], db_radiographs = [], db_uploads = []\<rparr>"

text \<open>
  The clinic with one treatment each: the first patient was charged 100 and paid 150,
  the second was charged 100 and paid nothing. The snapshot stored with the first
  payment is stale.
\<close>

definition treatment1 :: treatment_row where
  "treatment1 =
     \<lparr>trt_id = 1, trt_treatment_category = Some ''RCT'', trt_treatment_type = None,
      trt_date = ''2025-01-01'', trt_notes = None, trt_amount = Some (Finite 100),
      trt_next_appointment = Some ''2025-01-05'', trt_status = ''Ongoing'',
      trt_tooth_number = Some ''UR6'', trt_doctor = Some ''doctor'', trt_dentist_id = None,
      trt_patient_id = 1, trt_case_id = SqlInt 2, trt_visit_id = 1\<rparr>"

definition treatment2 :: treatment_row where
  "treatment2 =
     \<lparr>trt_id = 2, trt_treatment_category = Some ''Extraction'', trt_treatment_type = None,
      trt_date = ''2025-01-01'', trt_notes = None, trt_amount = Some (Finite 100),
      trt_next_appointment = None, trt_status = ''Completed'',
      trt_tooth_number = Some ''LL4'', trt_doctor = Some ''doctor'', trt_dentist_id = None,
      trt_patient_id = 2, trt_case_id = SqlText ''CASE-2-20250101-01'', trt_visit_id = 2\<rparr>"

definition payment1 :: payment_row where
  "payment1 =
     \<lparr>pay_id = 1, pay_patient_id = 1, pay_treatment_id = Some 1, pay_case_id = SqlInt 2,
      pay_date = ''2025-01-01'', pay_treatment_fee = Some (Finite 100),
      pay_amount_paid = Some (Finite 150), pay_remaining_balance = Some (Finite 100)\<rparr>"

definition payment2 :: payment_row where
  "payment2 =
     \<lparr>pay_id = 2, pay_patient_id = 2, pay_treatment_id = Some 2,
      pay_case_id = SqlText ''CASE-2-20250101-01'', pay_date = ''2025-01-01'',
      pay_treatment_fee = Some (Finite 100), pay_amount_paid = Some (Finite 0),
      pay_remaining_balance = Some (Finite 100)\<rparr>"

definition db1 :: db where
  "db1 =
     \<lparr>db_users = [\<lparr>usr_id = 1, usr_username = ''10001'', usr_role = ''patient''\<rparr>,
                  \<lparr>usr_id = 2, usr_username = ''10002'', usr_role = ''patient''\<rparr>],
      db_patients = [patient1, patient2],
      db_cases = [case_of_patient2, case_of_patient1],
      db_visits = [visit1, visit2],
      db_prescriptions = [\<lparr>rx_id = 1, rx_visit_id = 1, rx_notes = None\<rparr>],
      db_items = [\<lparr>itm_id = 1, itm_prescription_id = 1, itm_drug_name = ''Amoxicillin''\<rparr>],
      db_treatments = [treatment1, treatment2],
      db_followups =
        [\<lparr>fu_id = 1, fu_notes = ''dressing changed'', fu_next_appointment = None,
          fu_status = Some ''Completed'', fu_attachment = None, fu_treatment_id = 1\<rparr>],
      db_dentists = [],
      db_payments = [payment1, payment2],
      db_radiographs =
        [\<lparr>rad_id = 1, rad_patient_id = 1, rad_treatment_id = Some 1, rad_case_id = SqlInt 2,
          rad_filename = ''20250101093000_4821_xray.png'', rad_uploaded_by = Some ''doctor'',
          rad_uploaded_at = ''2025-01-01 09:30''\<rparr>],
      db_uploads = [''20250101093000_4821_xray.png'']\<rparr>"


text \<open>A POST request with the given form fields and uploaded file names.\<close>

definition post_request :: "(string \<times> string) list \<Rightarrow> (string \<times> string) list \<Rightarrow> request" where
  "post_request form_fields file_fields =
     \<lparr>rq_method = ''POST'', rq_form = map_of form_fields, rq_args = (\<lambda>k. None),
      rq_files = map_of file_fields\<rparr>"

text \<open>
  The clinic before any treatment, after a doctor has added to the first patient's
  visit a treatment with the fee \<open>nan\<close>.
\<close>

definition nan_fee_request :: request where
  "nan_fee_request = post_request [(''visit_id'', ''1''), (''treatment_fee'', ''nan'')] []"

definition db_nan :: db where
  "db_nan = snd (add_treatment env0 doctor_session nan_fee_request db0 1)"

text \<open>
  The clinic with one treatment each, after a doctor has added to the second patient's
  visit a treatment with the manual case identifier \<open>2\<close>. The case with the primary
  key 2 is the first patient's.
\<close>

definition manual_case_request :: request where
  "manual_case_request =
     post_request [(''visit_id'', ''2''), (''case_id_manual'', ''2''),
       (''treatment_fee'', ''100'')] []"

definition db_manual :: db where
  "db_manual = snd (add_treatment env0 doctor_session manual_case_request db1 2)"


section \<open>Properties of the canal suggestion\<close>

lemma py_int_UR6: "py_int ''6'' = Some 6"
  by (simp add: py_int_def int_max_str_digits_def int_literal_def strip_int_def
      chr_isspace_int_def int_unsigned_def chr_isdecimal_def chr_value_def)

lemma py_int_digit_limit: "4300 < length (filter chr_isdecimal s) \<Longrightarrow> py_int s = None"
  by (simp add: py_int_def int_max_str_digits_def)

lemma py_int_UL1: "py_int ''1'' = Some 1"
  by (simp add: py_int_def int_max_str_digits_def int_literal_def strip_int_def
      chr_isspace_int_def int_unsigned_def chr_isdecimal_def chr_value_def)

text \<open>
  C10. The canal suggestion is a function of the tooth code alone. A code shorter than
  three characters gives the single canal M, and so does a suffix among A to E; a
  suffix that \<open>int\<close> reads as n gives C for 1, 2, 3 and 5, B and P for 4, the four
  canals for 6, the three canals for 7 and 8, and M for any other n; a suffix that
  \<open>int\<close> rejects gives M, and \<open>int\<close> rejects every suffix of more than 4300
  digits, whatever number it spells. The four examples of the specification are
  instances.
\<close>

theorem get_canals_for_tooth_table:
  "(length s < 3 \<longrightarrow> get_canals_for_tooth s = [''M''])
   \<and> (3 \<le> length s \<and> drop 2 s \<in> {''A'', ''B'', ''C'', ''D'', ''E''}
        \<longrightarrow> get_canals_for_tooth s = [''M''])
   \<and> (3 \<le> length s \<and> drop 2 s \<notin> {''A'', ''B'', ''C'', ''D'', ''E''}
          \<and> py_int (drop 2 s) = Some n
        \<longrightarrow> get_canals_for_tooth s =
            (if n = 1 \<or> n = 2 \<or> n = 3 then [''C'']
             else if n = 4 then [''B'', ''P'']
             else if n = 5 then [''C'']
             else if n = 6 then [''MB1'', ''MB2'', ''DB'', ''P'']
             else if n = 7 \<or> n = 8 then [''MB'', ''DB'', ''P'']
             else [''M'']))
   \<and> (3 \<le> length s \<and> py_int (drop 2 s) = None \<longrightarrow> get_canals_for_tooth s = [''M''])
   \<and> (4300 < length (filter chr_isdecimal (drop 2 s)) \<longrightarrow> get_canals_for_tooth s = [''M''])
   \<and> get_canals_for_tooth ''UR6'' = [''MB1'', ''MB2'', ''DB'', ''P'']
   \<and> get_canals_for_tooth ''UL1'' = [''C'']
   \<and> get_canals_for_tooth ''URC'' = [''M'']
   \<and> get_canals_for_tooth '''' = [''M'']"
proof -
  have short: "length s < 3 \<longrightarrow> get_canals_for_tooth s = [''M'']"
    by (simp add: get_canals_for_tooth_def)
  have letter: "3 \<le> length s \<and> drop 2 s \<in> {''A'', ''B'', ''C'', ''D'', ''E''}
      \<longrightarrow> get_canals_for_tooth s = [''M'']"
    by (auto simp: get_canals_for_tooth_def Let_def)
  have number: "3 \<le> length s \<and> drop 2 s \<notin> {''A'', ''B'', ''C'', ''D'', ''E''}
        \<and> py_int (drop 2 s) = Some n
      \<longrightarrow> get_canals_for_tooth s =
          (if n = 1 \<or> n = 2 \<or> n = 3 then [''C'']
           else if n = 4 then [''B'', ''P'']
           else if n = 5 then [''C'']
           else if n = 6 then [''MB1'', ''MB2'', ''DB'', ''P'']
           else if n = 7 \<or> n = 8 then [''MB'', ''DB'', ''P'']
           else [''M''])"
    by (auto simp: get_canals_for_tooth_def Let_def)
  have reject: "3 \<le> length s \<and> py_int (drop 2 s) = None
      \<longrightarrow> get_canals_for_tooth s = [''M'']"
    by (auto simp: get_canals_for_tooth_def Let_def)
  have long: "4300 < length (filter chr_isdecimal (drop 2 s))
      \<longrightarrow> get_canals_for_tooth s = [''M'']"
  proof
    assume many: "4300 < length (filter chr_isdecimal (drop 2 s))"
    then have "py_int (drop 2 s) = None" by (rule py_int_digit_limit)
    moreover have "length (filter chr_isdecimal (drop 2 s)) \<le> length (drop 2 s)"
      by (rule length_filter_le)
    with many have "3 \<le> length s" by simp
    ultimately show "get_canals_for_tooth s = [''M'']"
      using reject by blast
  qed
  have e1: "get_canals_for_tooth ''UR6'' = [''MB1'', ''MB2'', ''DB'', ''P'']"
    by (simp add: get_canals_for_tooth_def py_int_UR6)
  have e2: "get_canals_for_tooth ''UL1'' = [''C'']"
    by (simp add: get_canals_for_tooth_def py_int_UL1)
  have e3: "get_canals_for_tooth ''URC'' = [''M'']"
    by (simp add: get_canals_for_tooth_def)
  have e4: "get_canals_for_tooth '''' = [''M'']"
    by (simp add: get_canals_for_tooth_def)
  from short letter number reject long e1 e2 e3 e4 show ?thesis
    by blast
qed

theorem get_canals_for_tooth_table_witness:
  "length ''LL4'' = 3 \<and> py_int (drop 2 ''LL4'') = Some 4
   \<and> get_canals_for_tooth ''LL4'' = [''B'', ''P'']
   \<and> py_int (drop 2 ''UR-'') = None \<and> get_canals_for_tooth ''UR-'' = [''M'']
   \<and> get_canals_for_tooth ''U'' = [''M'']
   \<and> get_canals_for_tooth ''LRE'' = [''M'']
   \<and> get_canals_for_tooth (''UR'' @ replicate 4300 CHR ''0'' @ ''6'') = [''M'']"
proof -
  have p4: "py_int (drop 2 ''LL4'') = Some 4"
    by (simp add: py_int_def int_max_str_digits_def int_literal_def strip_int_def
        chr_isspace_int_def int_unsigned_def chr_isdecimal_def chr_value_def)
  have pn: "py_int (drop 2 ''UR-'') = None"
    by (simp add: py_int_def int_literal_def strip_int_def chr_isspace_int_def
        int_unsigned_def)
  have many: "4300 < length (filter chr_isdecimal
      (drop 2 (''UR'' @ replicate 4300 CHR ''0'' @ ''6'')))"
    by (simp add: chr_isdecimal_def)
  from get_canals_for_tooth_table [of "''LL4''" 4] p4
  have a: "get_canals_for_tooth ''LL4'' = [''B'', ''P'']" by simp
  from get_canals_for_tooth_table [of "''UR-''" 0] pn
  have b: "get_canals_for_tooth ''UR-'' = [''M'']" by simp
  from get_canals_for_tooth_table [of "''U''" 0]
  have c: "get_canals_for_tooth ''U'' = [''M'']" by simp
  from get_canals_for_tooth_table [of "''LRE''" 0]
  have d: "get_canals_for_tooth ''LRE'' = [''M'']" by simp
  from get_canals_for_tooth_table [of "''UR'' @ replicate 4300 CHR ''0'' @ ''6''" 0] many
  have e: "get_canals_for_tooth (''UR'' @ replicate 4300 CHR ''0'' @ ''6'') = [''M'']"
    by blast
  from p4 pn a b c d e show ?thesis by simp
qed


section \<open>Properties of the ledger\<close>

lemma strict_from_null: "None \<in> set vs \<Longrightarrow> strict_from acc vs = None"
proof (induction vs arbitrary: acc)
  case Nil
  then show ?case by simp
next
  case (Cons v vs)
  then show ?case by (cases v) auto
qed

lemma py_sum_strict_null: "None \<in> set vs \<Longrightarrow> py_sum_strict vs = None"
  by (simp add: py_sum_strict_def strict_from_null)

text \<open>Without a NULL the unguarded sum is the guarded one.\<close>

lemma strict_from_guarded:
  "None \<notin> set vs \<Longrightarrow> strict_from acc vs = Some (foldl float_add acc (map or0 vs))"
proof (induction vs arbitrary: acc)
  case Nil
  then show ?case by simp
next
  case (Cons v vs)
  then obtain a where v: "v = Some a" by (cases v) auto
  from Cons.prems have "None \<notin> set vs" by simp
  then have "strict_from (float_add acc a) vs =
      Some (foldl float_add (float_add acc a) (map or0 vs))"
    by (rule Cons.IH)
  moreover have "or0 (Some a) = a" by (simp add: or0_def)
  ultimately show ?case using v by simp
qed

lemma py_sum_strict_guarded: "None \<notin> set vs \<Longrightarrow> py_sum_strict vs = Some (py_sum (map or0 vs))"
  by (simp add: py_sum_strict_def py_sum_def strict_from_guarded)

lemma find_pat_id: "find (\<lambda>p. pat_id p = pid) ps = Some patient \<Longrightarrow> pat_id patient = pid"
  by (auto simp: find_Some_iff)

text \<open>
  No read depends on the \<open>remaining_balance\<close> snapshots: overwriting them in any way
  changes no result.
\<close>

lemma insert_desc_map:
  assumes "\<And>x. key (g x) = key x"
  shows "insert_desc key (g x) (map g ys) = map g (insert_desc key x ys)"
  by (induction ys) (simp_all add: assms)

lemma order_by_desc_map:
  assumes "\<And>x. key (g x) = key x"
  shows "order_by_desc key (map g xs) = map g (order_by_desc key xs)"
proof -
  have "foldr (insert_desc key) (map g xs) [] = map g (foldr (insert_desc key) xs [])"
    by (induction xs) (simp_all add: insert_desc_map [where key = key and g = g, OF assms])
  then show ?thesis by (simp add: order_by_desc_def)
qed

lemma restamp_payments:
  "patient_payments (restamp f d) pid =
     map (\<lambda>p. p\<lparr>pay_remaining_balance := f p\<rparr>) (patient_payments d pid)"
  by (simp add: restamp_def patient_payments_def filter_map comp_def)

lemma restamp_ordered_payments:
  "map (\<lambda>p. or0 (pay_amount_paid p)) (order_by_desc pay_date (patient_payments (restamp f d) pid)) =
   map (\<lambda>p. or0 (pay_amount_paid p)) (order_by_desc pay_date (patient_payments d pid))"
proof -
  have "order_by_desc pay_date
          (map (\<lambda>p. p\<lparr>pay_remaining_balance := f p\<rparr>) (patient_payments d pid)) =
        map (\<lambda>p. p\<lparr>pay_remaining_balance := f p\<rparr>)
          (order_by_desc pay_date (patient_payments d pid))"
    by (rule order_by_desc_map) simp
  then show ?thesis by (simp add: restamp_payments comp_def)
qed

lemma restamp_treatments: "patient_treatments (restamp f d) pid = patient_treatments d pid"
  by (simp add: restamp_def patient_treatments_def)

lemma restamp_patients: "db_patients (restamp f d) = db_patients d"
  by (simp add: restamp_def)

lemma view_patient_restamp: "view_patient ss (restamp f d) pid = view_patient ss d pid"
  by (simp add: view_patient_def restamp_ordered_payments restamp_treatments restamp_patients
      cong: option.case_cong)

lemma dashboard_patient_restamp: "dashboard_patient ss (restamp f d) = dashboard_patient ss d"
  by (simp add: dashboard_patient_def restamp_ordered_payments restamp_treatments
      restamp_patients cong: option.case_cong)

lemma print_patient_restamp: "print_patient (restamp f d) pid = print_patient d pid"
  by (simp add: print_patient_def restamp_payments restamp_treatments restamp_patients comp_def
      cong: option.case_cong)

lemma print_payment_summary_restamp:
  "print_payment_summary (restamp f d) pid = print_payment_summary d pid"
  by (simp add: print_payment_summary_def restamp_payments restamp_treatments restamp_patients
      comp_def cong: option.case_cong)

text \<open>
  For a patient without a NULL amount the print summaries return the totals of the
  rows in the order of the table, every addition rounded.
\<close>

lemma print_patient_without_null:
  assumes "find (\<lambda>p. pat_id p = pid) (db_patients d) = Some patient"
      and "None \<notin> set (map trt_amount (patient_treatments d pid))"
      and "None \<notin> set (map pay_amount_paid (patient_payments d pid))"
  shows "print_patient d pid =
           Inr \<lparr>total_fee = py_sum (map or0 (map trt_amount (patient_treatments d pid))),
                total_paid = py_sum (map or0 (map pay_amount_paid (patient_payments d pid))),
                remaining =
                  float_sub (py_sum (map or0 (map trt_amount (patient_treatments d pid))))
                    (py_sum (map or0 (map pay_amount_paid (patient_payments d pid))))\<rparr>"
    and "print_payment_summary d pid = print_patient d pid"
  using assms find_pat_id [OF assms(1)]
  by (simp_all add: print_patient_def print_payment_summary_def py_sum_strict_guarded)

text \<open>
  C1. The claim says that every patient-level read shows the balance. The two print
  summaries add the amounts without the \<open>or 0\<close> guard of the patient view and the
  patient dashboard: for a patient with a treatment whose amount is NULL, or a payment
  whose amount paid is NULL, both end in an unhandled \<open>TypeError\<close> and show no
  balance, while the patient view and the patient dashboard read the NULL as 0 and
  return their totals.
\<close>

theorem print_summaries_raise_on_null_amount:
  assumes P: "find (\<lambda>p. pat_id p = pid) (db_patients d) = Some patient"
      and null: "None \<in> set (map trt_amount (patient_treatments d pid))
                 \<or> None \<in> set (map pay_amount_paid (patient_payments d pid))"
  shows "print_patient d pid = Inl (Raised TypeError)
         \<and> print_payment_summary d pid = Inl (Raised TypeError)
         \<and> (ss_username ss \<noteq> None \<longrightarrow> (\<exists>T. view_patient ss d pid = Inr T))
         \<and> (ss_role ss = Some ''patient'' \<and> ss_username ss = Some u
              \<and> find (\<lambda>p. pat_file_no p = u) (db_patients d) = Some patient
            \<longrightarrow> (\<exists>T. dashboard_patient ss d = Inr T))"
proof -
  from P have id: "pat_id patient = pid" by (rule find_pat_id)
  have sums: "py_sum_strict (map trt_amount (patient_treatments d pid)) = None
      \<or> py_sum_strict (map pay_amount_paid (patient_payments d pid)) = None"
    using null by (rule disjE) (simp_all only: py_sum_strict_null simp_thms)
  have a: "print_patient d pid = Inl (Raised TypeError)"
    using P id sums by (auto simp: print_patient_def split: option.splits)
  have b: "print_payment_summary d pid = Inl (Raised TypeError)"
    using P id sums by (auto simp: print_payment_summary_def split: option.splits)
  have c: "ss_username ss \<noteq> None \<longrightarrow> (\<exists>T. view_patient ss d pid = Inr T)"
    using P by (simp add: view_patient_def Let_def)
  have e: "ss_role ss = Some ''patient'' \<and> ss_username ss = Some u
              \<and> find (\<lambda>p. pat_file_no p = u) (db_patients d) = Some patient
            \<longrightarrow> (\<exists>T. dashboard_patient ss d = Inr T)"
    by (simp add: dashboard_patient_def Let_def)
  from a b c e show ?thesis by blast
qed

lemma db_nan_patient: "find (\<lambda>p. pat_id p = 1) (db_patients db_nan) = Some patient1"
  by code_simp

lemma db_nan_treatments:
  "db_treatments db_nan =
     [\<lparr>trt_id = 1, trt_treatment_category = None, trt_treatment_type = None,
       trt_date = ''2025-01-01'', trt_notes = None, trt_amount = None,
       trt_next_appointment = None, trt_status = ''Completed'', trt_tooth_number = None,
       trt_doctor = Some ''doctor'', trt_dentist_id = None, trt_patient_id = 1,
       trt_case_id = SqlText ''CASE-1-20250101-01'', trt_visit_id = 1\<rparr>]"
  by code_simp

lemma db_nan_view:
  "view_patient doctor_session db_nan 1 =
     Inr \<lparr>total_fee = Finite 0, total_paid = Finite 0, remaining = Finite 0\<rparr>"
  by code_simp

theorem print_summaries_raise_on_null_amount_witness:
  "env_float env0 ''nan'' = Some NaN
   \<and> fst (add_treatment env0 doctor_session nan_fee_request db0 1) =
       Inr (TreatmentAdded
         \<lparr>trt_id = 1, trt_treatment_category = None, trt_treatment_type = None,
          trt_date = ''2025-01-01'', trt_notes = None, trt_amount = None,
          trt_next_appointment = None, trt_status = ''Completed'', trt_tooth_number = None,
          trt_doctor = Some ''doctor'', trt_dentist_id = None, trt_patient_id = 1,
          trt_case_id = SqlText ''CASE-1-20250101-01'', trt_visit_id = 1\<rparr>)
   \<and> db_nan = snd (add_treatment env0 doctor_session nan_fee_request db0 1)
   \<and> print_patient db_nan 1 = Inl (Raised TypeError)
   \<and> print_payment_summary db_nan 1 = Inl (Raised TypeError)
   \<and> view_patient doctor_session db_nan 1 =
       Inr \<lparr>total_fee = Finite 0, total_paid = Finite 0, remaining = Finite 0\<rparr>"
proof -
  have nan: "env_float env0 ''nan'' = Some NaN"
    by (simp add: env0_def float_of_integer_literal_def)
  have run: "fst (add_treatment env0 doctor_session nan_fee_request db0 1) =
       Inr (TreatmentAdded
         \<lparr>trt_id = 1, trt_treatment_category = None, trt_treatment_type = None,
          trt_date = ''2025-01-01'', trt_notes = None, trt_amount = None,
          trt_next_appointment = None, trt_status = ''Completed'', trt_tooth_number = None,
          trt_doctor = Some ''doctor'', trt_dentist_id = None, trt_patient_id = 1,
          trt_case_id = SqlText ''CASE-1-20250101-01'', trt_visit_id = 1\<rparr>)"
    by code_simp
  have null: "None \<in> set (map trt_amount (patient_treatments db_nan 1))
      \<or> None \<in> set (map pay_amount_paid (patient_payments db_nan 1))"
    by (simp add: patient_treatments_def db_nan_treatments)
  from print_summaries_raise_on_null_amount [OF db_nan_patient null]
  have "print_patient db_nan 1 = Inl (Raised TypeError)
      \<and> print_payment_summary db_nan 1 = Inl (Raised TypeError)"
    by blast
  with nan run db_nan_view show ?thesis by (simp add: db_nan_def)
qed

text \<open>
  The loop of the main dashboard stops with the \<open>TypeError\<close> at the first patient
  who has a NULL amount; without a NULL it adds, patient after patient, the larger of
  0 and the patient's fees less payments, each read in the order of the table and every
  operation rounded.
\<close>

lemma outstanding_loop_null:
  assumes "\<exists>p\<in>set ps. None \<in> set (map trt_amount (patient_treatments d (pat_id p)))
             \<or> None \<in> set (map pay_amount_paid (patient_payments d (pat_id p)))"
  shows "outstanding_loop d acc ps = None"
  using assms
proof (induction ps arbitrary: acc)
  case Nil
  then show ?case by simp
next
  case (Cons patient rest)
  show ?case
  proof (cases "None \<in> set (map trt_amount (patient_treatments d (pat_id patient)))
      \<or> None \<in> set (map pay_amount_paid (patient_payments d (pat_id patient)))")
    case True
    then have "py_sum_strict (map trt_amount (patient_treatments d (pat_id patient))) = None
        \<or> py_sum_strict (map pay_amount_paid (patient_payments d (pat_id patient))) = None"
      by (rule disjE) (simp_all only: py_sum_strict_null simp_thms)
    then show ?thesis by (auto split: option.splits)
  next
    case False
    with Cons.prems have "\<exists>p\<in>set rest.
        None \<in> set (map trt_amount (patient_treatments d (pat_id p)))
        \<or> None \<in> set (map pay_amount_paid (patient_payments d (pat_id p)))"
      by auto
    then have "outstanding_loop d acc' rest = None" for acc'
      by (rule Cons.IH)
    then show ?thesis by (simp split: option.splits)
  qed
qed

lemma outstanding_loop_without_null:
  assumes "\<forall>p\<in>set ps. None \<notin> set (map trt_amount (patient_treatments d (pat_id p)))
             \<and> None \<notin> set (map pay_amount_paid (patient_payments d (pat_id p)))"
  shows "outstanding_loop d acc ps =
           Some (foldl (\<lambda>a p. float_add a (clamped_balance d p)) acc ps)"
  using assms
  by (induction ps arbitrary: acc) (simp_all add: py_sum_strict_guarded clamped_balance_def)

text \<open>
  C3. The claim gives the total outstanding of the main dashboard for every state of
  the ledger. The dashboard adds the amounts without the \<open>or 0\<close> guard of the patient
  view: with a payment whose amount paid is NULL, or a patient who has a treatment
  whose amount is NULL, it ends in an unhandled \<open>TypeError\<close> and shows no total,
  while the view of every patient still returns its totals.
\<close>

theorem dashboard_main_raises_on_null_amount:
  assumes role: "require_role [''doctor'', ''assistant''] ss"
      and null: "None \<in> set (map pay_amount_paid (db_payments d))
                 \<or> (\<exists>p\<in>set (db_patients d).
                       None \<in> set (map trt_amount (patient_treatments d (pat_id p))))"
  shows "dashboard_main ss d = Inl (Raised TypeError)
         \<and> (\<forall>p\<in>set (db_patients d). ss_username ss \<noteq> None \<longrightarrow>
               (\<exists>T. view_patient ss d (pat_id p) = Inr T))"
proof -
  have main: "dashboard_main ss d = Inl (Raised TypeError)"
  proof (cases "None \<in> set (map pay_amount_paid (db_payments d))")
    case True
    then have "py_sum_strict (map pay_amount_paid (db_payments d)) = None"
      by (rule py_sum_strict_null)
    with role show ?thesis by (simp add: dashboard_main_def)
  next
    case False
    with null have "\<exists>p\<in>set (db_patients d).
        None \<in> set (map trt_amount (patient_treatments d (pat_id p)))
        \<or> None \<in> set (map pay_amount_paid (patient_payments d (pat_id p)))"
      by blast
    then have "outstanding_loop d (Finite 0) (db_patients d) = None"
      by (rule outstanding_loop_null)
    with role show ?thesis by (simp add: dashboard_main_def split: option.splits)
  qed
  have views: "\<forall>p\<in>set (db_patients d). ss_username ss \<noteq> None \<longrightarrow>
      (\<exists>T. view_patient ss d (pat_id p) = Inr T)"
  proof (intro ballI impI)
    fix p
    assume p: "p \<in> set (db_patients d)" and login: "ss_username ss \<noteq> None"
    then obtain q where "find (\<lambda>x. pat_id x = pat_id p) (db_patients d) = Some q"
      by (cases "find (\<lambda>x. pat_id x = pat_id p) (db_patients d)") (auto simp: find_None_iff)
    with login show "\<exists>T. view_patient ss d (pat_id p) = Inr T"
      by (simp add: view_patient_def Let_def)
  qed
  from main views show ?thesis by blast
qed

text \<open>
  The example of the specification, where no amount is NULL: the first patient is 50
  in credit, the second owes 100, the total outstanding is 100.
\<close>

lemma db1_dashboard_main:
  "dashboard_main doctor_session db1 =
     Inr \<lparr>total_revenue = Finite 150, total_outstanding = Finite 100, total_patients = 2\<rparr>"
  by code_simp

lemma db1_view_patient:
  "view_patient doctor_session db1 1 =
     Inr \<lparr>total_fee = Finite 100, total_paid = Finite 150, remaining = Finite (- 50)\<rparr>"
  by code_simp

lemma db_nan_view_second:
  "view_patient doctor_session db_nan 2 =
     Inr \<lparr>total_fee = Finite 0, total_paid = Finite 0, remaining = Finite 0\<rparr>"
  by code_simp

theorem dashboard_main_raises_on_null_amount_witness:
  "db_treatments db_nan =
     [\<lparr>trt_id = 1, trt_treatment_category = None, trt_treatment_type = None,
       trt_date = ''2025-01-01'', trt_notes = None, trt_amount = None,
       trt_next_appointment = None, trt_status = ''Completed'', trt_tooth_number = None,
       trt_doctor = Some ''doctor'', trt_dentist_id = None, trt_patient_id = 1,
       trt_case_id = SqlText ''CASE-1-20250101-01'', trt_visit_id = 1\<rparr>]
   \<and> dashboard_main doctor_session db_nan = Inl (Raised TypeError)
   \<and> view_patient doctor_session db_nan 2 =
       Inr \<lparr>total_fee = Finite 0, total_paid = Finite 0, remaining = Finite 0\<rparr>
   \<and> dashboard_main doctor_session db1 =
       Inr \<lparr>total_revenue = Finite 150, total_outstanding = Finite 100, total_patients = 2\<rparr>
   \<and> view_patient doctor_session db1 1 =
       Inr \<lparr>total_fee = Finite 100, total_paid = Finite 150, remaining = Finite (- 50)\<rparr>"
proof -
  have role: "require_role [''doctor'', ''assistant''] doctor_session"
    by (simp add: require_role_def doctor_session_def)
  have pats: "db_patients db_nan = [patient1, patient2]" by code_simp
  have "None \<in> set (map trt_amount (patient_treatments db_nan (pat_id patient1)))"
    by (simp add: patient_treatments_def db_nan_treatments patient1_def)
  with pats have null: "None \<in> set (map pay_amount_paid (db_payments db_nan))
      \<or> (\<exists>p\<in>set (db_patients db_nan).
            None \<in> set (map trt_amount (patient_treatments db_nan (pat_id p))))"
    by simp
  from dashboard_main_raises_on_null_amount [OF role null]
  have "dashboard_main doctor_session db_nan = Inl (Raised TypeError)" by blast
  with db_nan_treatments db_nan_view_second db1_dashboard_main db1_view_patient
  show ?thesis by simp
qed


section \<open>Properties of the identifier generator\<close>

lemma sql_like_percent_skip: "sql_like ps t \<Longrightarrow> sql_like (CHR ''%'' # ps) (u @ t)"
  by (induction u) simp_all

lemma sql_like_prefix: "sql_like (p @ ''%'') (p @ r)"
proof (induction p)
  case Nil
  have "sql_like [] []" by simp
  then have "sql_like (CHR ''%'' # []) (r @ [])" by (rule sql_like_percent_skip)
  then show ?case by simp
next
  case (Cons c cs)
  show ?case
  proof (cases "c = CHR ''%''")
    case True
    from Cons.IH have "sql_like (CHR ''%'' # (cs @ ''%'')) (''%'' @ (cs @ r))"
      by (rule sql_like_percent_skip)
    with True show ?thesis by simp
  next
    case False
    with Cons.IH show ?thesis by simp
  qed
qed


lemma chr_value_digit: "n < 10 \<Longrightarrow> chr_value (digit_chr n) = n"
  by (simp add: chr_value_def digit_chr_def)

lemma digits_value_snoc: "digits_value (s @ [c]) = 10 * digits_value s + chr_value c"
  by (simp add: digits_value_def)

lemma digits_value_str_nat: "digits_value (str_nat n) = n"
proof (induction n rule: str_nat.induct)
  case (1 n)
  show ?case
  proof (cases "n < 10")
    case True
    then show ?thesis
      by (subst str_nat.simps) (simp add: digits_value_def chr_value_digit)
  next
    case False
    with "1" have "digits_value (str_nat (n div 10)) = n div 10" by simp
    with False show ?thesis
      by (subst str_nat.simps) (simp add: digits_value_snoc chr_value_digit)
  qed
qed

lemma digits_value_fmt_02d: "digits_value (fmt_02d n) = n"
proof -
  have z: "chr_value (CHR ''0'') = 0" by (simp add: chr_value_def)
  have "digits_value (CHR ''0'' # s) = digits_value s" for s
    by (simp add: digits_value_def z)
  then show ?thesis by (simp add: fmt_02d_def digits_value_str_nat)
qed

lemma fmt_02d_inj: "fmt_02d m = fmt_02d n \<Longrightarrow> m = n"
  by (metis digits_value_fmt_02d)

lemma length_fmt_02d: "n \<le> 99 \<Longrightarrow> length (fmt_02d n) = 2"
proof -
  assume n: "n \<le> 99"
  show ?thesis
  proof (cases "n < 10")
    case True
    then show ?thesis by (simp add: fmt_02d_def str_nat.simps [of n])
  next
    case False
    with n have "n div 10 < 10" by simp
    with False show ?thesis
      by (simp add: fmt_02d_def str_nat.simps [of n] str_nat.simps [of "n div 10"])
  qed
qed


lemma generated_id_inj: "generated_id e patient m = generated_id e patient n \<Longrightarrow> m = n"
  by (simp add: generated_id_def fmt_02d_inj)

lemma generated_id_like:
  "sql_like (case_prefix (pat_id patient) (env_today_compact e) @ ''%'')
     (generated_id e patient k)"
  by (simp add: generated_id_def sql_like_prefix)

lemma select_case_id_generated:
  "select_case_id e d patient [] [] =
     generated_id e patient
       (count_cases_like d (pat_id patient)
          (case_prefix (pat_id patient) (env_today_compact e)) + 1)"
  by (simp add: select_case_id_def generated_id_def Let_def)


lemma ensure_case_fresh:
  assumes "\<forall>c\<in>set (db_cases d). cas_case_id c \<noteq> cid"
  shows "ensure_case d patient cid = Inr (d\<lparr>db_cases := db_cases d @ [new_case d patient cid]\<rparr>)"
proof -
  from assms have nf:
    "find (\<lambda>c. cas_case_id c = cid \<and> cas_patient_id c = pat_id patient) (db_cases d) = None"
    by (auto simp: find_None_iff)
  from assms have ni: "cid \<notin> set (map cas_case_id (db_cases d))" by auto
  show ?thesis
    using nf ni by (simp add: ensure_case_def insert_case_def new_case_def Let_def)
qed

lemma count_cases_like_snoc:
  "count_cases_like (d\<lparr>db_cases := db_cases d @ [c]\<rparr>) pid prefix =
     count_cases_like d pid prefix
       + (if cas_patient_id c = pid \<and> sql_like (prefix @ ''%'') (cas_case_id c) then 1 else 0)"
  by (simp add: count_cases_like_def)

lemma create_cases_from:
  assumes "count_cases_like d (pat_id patient)
             (case_prefix (pat_id patient) (env_today_compact e)) = j"
      and "\<forall>c\<in>set (db_cases d). \<forall>k. j < k \<and> k \<le> j + n \<longrightarrow> cas_case_id c \<noteq> generated_id e patient k"
  shows "\<exists>news. create_cases e patient n d = Inr (d\<lparr>db_cases := db_cases d @ news\<rparr>)
           \<and> map cas_case_id news = map (generated_id e patient) [j + 1..<j + n + 1]
           \<and> (\<forall>c\<in>set news. cas_patient_id c = pat_id patient \<and> cas_status c = ''Active'')"
  using assms
proof (induction n arbitrary: d j)
  case 0
  have "create_cases e patient 0 d = Inr (d\<lparr>db_cases := db_cases d @ []\<rparr>)" by simp
  then show ?case by fastforce
next
  case (Suc n)
  let ?prefix = "case_prefix (pat_id patient) (env_today_compact e)"
  let ?cid = "generated_id e patient (j + 1)"
  let ?row = "new_case d patient ?cid"
  let ?d' = "d\<lparr>db_cases := db_cases d @ [?row]\<rparr>"
  from Suc.prems(1) have sel: "select_case_id e d patient [] [] = ?cid"
    by (simp add: select_case_id_generated)
  from Suc.prems(2) have fresh: "\<forall>c\<in>set (db_cases d). cas_case_id c \<noteq> ?cid"
    by auto
  then have step: "ensure_case d patient ?cid = Inr ?d'"
    by (rule ensure_case_fresh)
  have row: "cas_case_id ?row = ?cid" "cas_patient_id ?row = pat_id patient"
      "cas_status ?row = ''Active''"
    by (simp_all add: new_case_def)
  have count': "count_cases_like ?d' (pat_id patient) ?prefix = j + 1"
    using Suc.prems(1) row generated_id_like [of patient e "j + 1"]
    by (simp add: count_cases_like_snoc)
  have fresh': "\<forall>c\<in>set (db_cases ?d'). \<forall>k. j + 1 < k \<and> k \<le> j + 1 + n
                  \<longrightarrow> cas_case_id c \<noteq> generated_id e patient k"
  proof (intro ballI allI impI)
    fix c k
    assume c: "c \<in> set (db_cases ?d')" and k: "j + 1 < k \<and> k \<le> j + 1 + n"
    show "cas_case_id c \<noteq> generated_id e patient k"
    proof (cases "c = ?row")
      case True
      from k have "j + 1 \<noteq> k" by simp
      then have "?cid \<noteq> generated_id e patient k"
        using generated_id_inj by blast
      with True row show ?thesis by simp
    next
      case False
      with c have "c \<in> set (db_cases d)" by simp
      moreover from k have "j < k \<and> k \<le> j + Suc n" by simp
      ultimately show ?thesis using Suc.prems(2) by blast
    qed
  qed
  from Suc.IH [OF count' fresh'] obtain news where
    run: "create_cases e patient n ?d' = Inr (?d'\<lparr>db_cases := db_cases ?d' @ news\<rparr>)"
    and ids: "map cas_case_id news = map (generated_id e patient) [j + 1 + 1..<j + 1 + n + 1]"
    and own: "\<forall>c\<in>set news. cas_patient_id c = pat_id patient \<and> cas_status c = ''Active''"
    by blast
  have "create_cases e patient (Suc n) d = Inr (d\<lparr>db_cases := db_cases d @ (?row # news)\<rparr>)"
    using sel step run by simp
  moreover have "map cas_case_id (?row # news) =
      map (generated_id e patient) [j + 1..<j + Suc n + 1]"
  proof -
    have "[j + 1..<j + Suc n + 1] = (j + 1) # [j + 1 + 1..<j + 1 + n + 1]"
      by (simp add: upt_conv_Cons del: upt_Suc)
    with ids row show ?thesis by (simp del: upt_Suc)
  qed
  moreover have "\<forall>c\<in>set (?row # news). cas_patient_id c = pat_id patient
      \<and> cas_status c = ''Active''"
    using own row by simp
  ultimately show ?case by blast
qed







text \<open>
  C2. Fix a patient and a day, and a database in which none of the patient's cases
  matches the pattern \<open>CASE-<pid>-<date>%\<close> and no case at all carries one of the
  identifiers to come. Creating N cases (N at most 99) one after the other, with
  neither a selected nor a manual identifier, succeeds and appends N case rows of the
  patient, all Active, whose identifiers are \<open>CASE-<pid>-<date>-01\<close> to
  \<open>CASE-<pid>-<date>-N\<close> in two digits, pairwise distinct. Every generation returns
  the prefix followed by the count of the patient's matching cases plus one.
\<close>

theorem sequential_case_ids:
  assumes N: "N \<le> 99"
      and own: "\<forall>c\<in>set (db_cases d). cas_patient_id c = pat_id patient \<longrightarrow>
                 \<not> sql_like (case_prefix (pat_id patient) (env_today_compact e) @ ''%'')
                      (cas_case_id c)"
      and others: "\<forall>c\<in>set (db_cases d). \<forall>k\<in>{1..N}. cas_case_id c \<noteq> generated_id e patient k"
  shows "\<exists>news. create_cases e patient N d = Inr (d\<lparr>db_cases := db_cases d @ news\<rparr>)
           \<and> map cas_case_id news = map (generated_id e patient) [1..<N + 1]
           \<and> length news = N \<and> distinct (map cas_case_id news)
           \<and> (\<forall>c\<in>set news. cas_patient_id c = pat_id patient \<and> cas_status c = ''Active'')
           \<and> (\<forall>k\<in>{1..N}. generated_id e patient k =
                  ''CASE-'' @ str_int (pat_id patient) @ ''-'' @ env_today_compact e @ ''-''
                    @ fmt_02d k
                \<and> length (fmt_02d k) = 2)
           \<and> (\<forall>d'. select_case_id e d' patient [] [] =
                  generated_id e patient
                    (count_cases_like d' (pat_id patient)
                       (case_prefix (pat_id patient) (env_today_compact e)) + 1))"
proof -
  let ?prefix = "case_prefix (pat_id patient) (env_today_compact e)"
  from own have "filter (\<lambda>c. cas_patient_id c = pat_id patient
      \<and> sql_like (?prefix @ ''%'') (cas_case_id c)) (db_cases d) = []"
    by (auto simp: filter_empty_conv)
  then have count: "count_cases_like d (pat_id patient) ?prefix = 0"
    by (simp add: count_cases_like_def)
  from others have fresh: "\<forall>c\<in>set (db_cases d). \<forall>k. 0 < k \<and> k \<le> 0 + N
      \<longrightarrow> cas_case_id c \<noteq> generated_id e patient k"
    by auto
  from create_cases_from [OF count fresh] obtain news where
    run: "create_cases e patient N d = Inr (d\<lparr>db_cases := db_cases d @ news\<rparr>)"
    and ids: "map cas_case_id news = map (generated_id e patient) [0 + 1..<0 + N + 1]"
    and mine: "\<forall>c\<in>set news. cas_patient_id c = pat_id patient \<and> cas_status c = ''Active''"
    by blast
  from ids have ids': "map cas_case_id news = map (generated_id e patient) [1..<N + 1]"
    by simp
  from ids' have len: "length news = N"
    by (metis One_nat_def Suc_eq_plus1 diff_Suc_1 length_map length_upt)
  have "inj_on (generated_id e patient) (set [1..<N + 1])"
    by (rule inj_onI) (rule generated_id_inj)
  then have dist: "distinct (map cas_case_id news)"
    by (simp add: ids' distinct_map)
  have fmt: "\<forall>k\<in>{1..N}. generated_id e patient k =
                  ''CASE-'' @ str_int (pat_id patient) @ ''-'' @ env_today_compact e @ ''-''
                    @ fmt_02d k
                \<and> length (fmt_02d k) = 2"
    using N by (auto simp: generated_id_def case_prefix_def length_fmt_02d)
  have gen: "\<forall>d'. select_case_id e d' patient [] [] =
                  generated_id e patient (count_cases_like d' (pat_id patient) ?prefix + 1)"
    by (simp add: select_case_id_generated)
  from run ids' len dist mine fmt gen show ?thesis by blast
qed

lemma generated_id_env0_1: "generated_id env0 patient1 1 = ''CASE-1-20250101-01''"
  by code_simp

lemma generated_id_env0_2: "generated_id env0 patient1 2 = ''CASE-1-20250101-02''"
  by code_simp

theorem sequential_case_ids_witness:
  "\<exists>news. create_cases env0 patient1 2 db0 = Inr (db0\<lparr>db_cases := db_cases db0 @ news\<rparr>)
     \<and> map cas_case_id news = [''CASE-1-20250101-01'', ''CASE-1-20250101-02'']"
proof -
  have N: "(2::nat) \<le> 99" by simp
  have own: "\<forall>c\<in>set (db_cases db0). cas_patient_id c = pat_id patient1 \<longrightarrow>
               \<not> sql_like (case_prefix (pat_id patient1) (env_today_compact env0) @ ''%'')
                    (cas_case_id c)"
    by (simp add: db0_def patient1_def case_of_patient2_def)
  have g1: "generated_id env0 patient1 (Suc 0) = ''CASE-1-20250101-01''"
    using generated_id_env0_1 by simp
  have set2: "{1..2::nat} = {Suc 0, 2}" by auto
  have others: "\<forall>c\<in>set (db_cases db0). \<forall>k\<in>{1..2}. cas_case_id c \<noteq> generated_id env0 patient1 k"
    unfolding set2 by (simp add: g1 generated_id_env0_2 db0_def case_of_patient2_def)
  have upt2: "[1..<2 + 1] = [1, 2::nat]" by (simp add: upt_conv_Cons)
  from sequential_case_ids [OF N own others] obtain news where
    run: "create_cases env0 patient1 2 db0 = Inr (db0\<lparr>db_cases := db_cases db0 @ news\<rparr>)"
    and ids: "map cas_case_id news = map (generated_id env0 patient1) [1..<2 + 1]"
    by blast
  from ids have ids': "map cas_case_id news = [''CASE-1-20250101-01'', ''CASE-1-20250101-02'']"
    by (simp only: upt2 list.map generated_id_env0_1 generated_id_env0_2)
  show ?thesis
    by (rule exI [of _ news]) (rule conjI [OF run ids'])
qed

text \<open>
  C5. The claim says that a submitted case form yields a persisted Active case with a
  generated identifier. The route does not get that far: for an authorised user, an
  existing patient and a POST, \<open>add_case\<close> raises \<open>AttributeError\<close> and writes
  nothing, because it calls \<open>generate_case_no\<close> while the class defines
  \<open>generate_case_id\<close>.
\<close>

theorem add_case_post_raises:
  assumes "require_role [''doctor'', ''assistant''] ss"
      and "find (\<lambda>p. pat_id p = pid) (db_patients d) = Some patient"
      and "rq_method rq = ''POST''"
  shows "add_case e ss rq d pid = (Inl (Raised AttributeError), d)
         \<and> case_methods ''generate_case_no'' = None
         \<and> case_methods ''generate_case_id'' = Some generate_case_id"
  using assms by (simp add: add_case_def case_methods_def Let_def)

theorem add_case_post_raises_witness:
  "add_case env0 doctor_session
     (post_request [(''title'', ''Root canal''), (''diagnosis'', ''Pulpitis'')] []) db0 1 =
   (Inl (Raised AttributeError), db0)"
proof -
  have role: "require_role [''doctor'', ''assistant''] doctor_session"
    by (simp add: require_role_def doctor_session_def)
  have pat: "find (\<lambda>p. pat_id p = 1) (db_patients db0) = Some patient1"
    by (simp add: db0_def patient1_def)
  have post: "rq_method (post_request [(''title'', ''Root canal''), (''diagnosis'', ''Pulpitis'')] [])
      = ''POST''"
    by (simp add: post_request_def)
  from add_case_post_raises [OF role pat post] show ?thesis by simp
qed

section \<open>Properties of follow-ups\<close>

lemma find_map_same_key:
  assumes "find P ts = Some x" and "\<And>t. P (g t) = P t"
  shows "find P (map g ts) = Some (g x)"
  using assms by (induction ts) (auto split: if_splits)

text \<open>
  C7. When \<open>add_followup\<close> adds a follow-up to a treatment: with the flag
  \<open>update_treatment_status\<close> equal to 1 the treatment becomes Completed and its next
  appointment is cleared, whatever status and next appointment the follow-up carries;
  without the flag, a follow-up that is Ongoing with a non-empty next appointment
  writes that date to the treatment's next appointment and changes no other field.
  In both cases every other treatment row stays as it was.
\<close>

theorem followup_updates_treatment:
  assumes T: "find (\<lambda>t. trt_id t = tid) (db_treatments d) = Some treatment"
      and added: "add_followup e rq d tid = (Inr (FollowupAdded f), d')"
  shows
    "(rq_form rq ''update_treatment_status'' = Some ''1'' \<longrightarrow>
        find (\<lambda>t. trt_id t = tid) (db_treatments d') =
          Some (treatment\<lparr>trt_status := ''Completed'', trt_next_appointment := None\<rparr>))
     \<and> (rq_form rq ''update_treatment_status'' \<noteq> Some ''1''
          \<and> rq_form rq ''status'' = Some ''Ongoing''
          \<and> get_or (rq_form rq) ''next_appointment'' [] \<noteq> [] \<longrightarrow>
        find (\<lambda>t. trt_id t = tid) (db_treatments d') =
          Some (treatment\<lparr>trt_next_appointment :=
                  Some (get_or (rq_form rq) ''next_appointment'' [])\<rparr>))
     \<and> map (\<lambda>t. if trt_id t = tid then None else Some t) (db_treatments d') =
         map (\<lambda>t. if trt_id t = tid then None else Some t) (db_treatments d)
     \<and> f \<in> set (db_followups d') \<and> fu_treatment_id f = tid"
proof -
  from T have id: "trt_id treatment = tid" by (auto simp: find_Some_iff)
  let ?flag = "rq_form rq ''update_treatment_status''"
  let ?status = "rq_form rq ''status''"
  let ?na = "get_or (rq_form rq) ''next_appointment'' []"
  let ?t' = "if ?flag = Some ''1'' then
               treatment\<lparr>trt_status := ''Completed'', trt_next_appointment := None\<rparr>
             else if ?status = Some ''Ongoing'' \<and> ?na \<noteq> [] then
               treatment\<lparr>trt_next_appointment := Some ?na\<rparr>
             else treatment"
  let ?g = "\<lambda>t. if trt_id t = tid then ?t' else t"
  from added T id have rows: "db_treatments d' = map ?g (db_treatments d)"
    and fu: "f \<in> set (db_followups d')" "fu_treatment_id f = tid"
    by (auto simp: add_followup_def Let_def save_file_def split: if_splits option.splits)
  have key: "\<And>t. (trt_id (?g t) = tid) = (trt_id t = tid)"
    using id by simp
  from find_map_same_key [OF T, of ?g] key
  have found: "find (\<lambda>t. trt_id t = tid) (db_treatments d') = Some (?g treatment)"
    by (simp only: rows)
  have a: "?flag = Some ''1'' \<longrightarrow>
        find (\<lambda>t. trt_id t = tid) (db_treatments d') =
          Some (treatment\<lparr>trt_status := ''Completed'', trt_next_appointment := None\<rparr>)"
    using found id by simp
  have b: "?flag \<noteq> Some ''1'' \<and> ?status = Some ''Ongoing'' \<and> ?na \<noteq> [] \<longrightarrow>
        find (\<lambda>t. trt_id t = tid) (db_treatments d') =
          Some (treatment\<lparr>trt_next_appointment := Some ?na\<rparr>)"
    using found id by simp
  have c: "map (\<lambda>t. if trt_id t = tid then None else Some t) (db_treatments d') =
         map (\<lambda>t. if trt_id t = tid then None else Some t) (db_treatments d)"
    using id by (simp add: rows comp_def)
  from a b c fu show ?thesis by blast
qed

lemma strip_plain: "strip ''healing well'' = ''healing well''"
  by (simp add: strip_def chr_isspace_def)

theorem followup_updates_treatment_witness:
  "find (\<lambda>t. trt_id t = 1) (db_treatments db1) = Some treatment1
   \<and> (\<exists>f d'. add_followup env0
          (post_request [(''notes'', ''healing well''), (''status'', ''Ongoing''),
             (''next_appointment'', ''2025-01-10''), (''update_treatment_status'', ''1'')] [])
          db1 1 = (Inr (FollowupAdded f), d')
        \<and> find (\<lambda>t. trt_id t = 1) (db_treatments d') =
            Some (treatment1\<lparr>trt_status := ''Completed'', trt_next_appointment := None\<rparr>))
   \<and> (\<exists>f d'. add_followup env0
          (post_request [(''notes'', ''healing well''), (''status'', ''Ongoing''),
             (''next_appointment'', ''2025-01-10'')] [])
          db1 1 = (Inr (FollowupAdded f), d')
        \<and> find (\<lambda>t. trt_id t = 1) (db_treatments d') =
            Some (treatment1\<lparr>trt_next_appointment := Some ''2025-01-10''\<rparr>))"
proof -
  let ?flag = "post_request [(''notes'', ''healing well''), (''status'', ''Ongoing''),
             (''next_appointment'', ''2025-01-10''), (''update_treatment_status'', ''1'')] []"
  let ?plain = "post_request [(''notes'', ''healing well''), (''status'', ''Ongoing''),
             (''next_appointment'', ''2025-01-10'')] []"
  have T: "find (\<lambda>t. trt_id t = 1) (db_treatments db1) = Some treatment1"
    by (simp add: db1_def treatment1_def)
  have "\<exists>f d'. add_followup env0 ?flag db1 1 = (Inr (FollowupAdded f), d')"
    by (simp add: add_followup_def T post_request_def get_or_def strip_plain truthy_def Let_def)
  then obtain f d' where run: "add_followup env0 ?flag db1 1 = (Inr (FollowupAdded f), d')"
    by blast
  have flagged: "rq_form ?flag ''update_treatment_status'' = Some ''1''"
    by (simp add: post_request_def)
  from followup_updates_treatment [OF T run] flagged
  have a: "find (\<lambda>t. trt_id t = 1) (db_treatments d') =
      Some (treatment1\<lparr>trt_status := ''Completed'', trt_next_appointment := None\<rparr>)"
    by blast
  have "\<exists>f d'. add_followup env0 ?plain db1 1 = (Inr (FollowupAdded f), d')"
    by (simp add: add_followup_def T post_request_def get_or_def strip_plain truthy_def Let_def)
  then obtain g d'' where run': "add_followup env0 ?plain db1 1 = (Inr (FollowupAdded g), d'')"
    by blast
  have plain: "rq_form ?plain ''update_treatment_status'' \<noteq> Some ''1''
      \<and> rq_form ?plain ''status'' = Some ''Ongoing''
      \<and> get_or (rq_form ?plain) ''next_appointment'' [] \<noteq> []"
    by (simp add: post_request_def get_or_def)
  have na: "get_or (rq_form ?plain) ''next_appointment'' [] = ''2025-01-10''"
    by (simp add: post_request_def get_or_def)
  from followup_updates_treatment [OF T run'] plain
  have "find (\<lambda>t. trt_id t = 1) (db_treatments d'') =
      Some (treatment1\<lparr>trt_next_appointment :=
              Some (get_or (rq_form ?plain) ''next_appointment'' [])\<rparr>)"
    by blast
  then have b: "find (\<lambda>t. trt_id t = 1) (db_treatments d'') =
      Some (treatment1\<lparr>trt_next_appointment := Some ''2025-01-10''\<rparr>)"
    by (simp only: na)
  from T run a run' b show ?thesis by blast
qed

section \<open>Properties of adding a treatment\<close>

lemma rstrip_keeps_head:
  "\<not> P c \<Longrightarrow> rev (dropWhile P (rev (c # r))) = c # rev (dropWhile P (rev r))"
  by (simp add: dropWhile_append3)

lemma sqlite_integer_affinity_case_text:
  "sqlite_integer_affinity (''CASE-'' @ r) = SqlText (''CASE-'' @ r)"
proof -
  have nb: "\<not> chr_isblank_sqlite CHR ''C''" by (simp add: chr_isblank_sqlite_def)
  have nd: "\<not> chr_isdecimal CHR ''C''" by (simp add: chr_isdecimal_def)
  define s where "s = ''CASE-'' @ r"
  define q where "q = ''ASE-'' @ r"
  have s: "s = CHR ''C'' # q" by (simp add: s_def q_def)
  have front: "dropWhile chr_isblank_sqlite (CHR ''C'' # q) = CHR ''C'' # q"
    using nb by simp
  have "rev (dropWhile chr_isblank_sqlite (rev (CHR ''C'' # q))) =
      CHR ''C'' # rev (dropWhile chr_isblank_sqlite (rev q))"
    using nb by (rule rstrip_keeps_head)
  then have t: "rev (dropWhile chr_isblank_sqlite (rev (dropWhile chr_isblank_sqlite s))) =
      CHR ''C'' # rev (dropWhile chr_isblank_sqlite (rev q))"
    unfolding s front by this
  have "sqlite_integer_affinity s = SqlText s"
    unfolding sqlite_integer_affinity_def Let_def t using nd by simp
  then show ?thesis by (simp only: s_def)
qed

lemma add_treatment_post_added:
  assumes "add_treatment_post e ss rq d patient visit = (Inr (TreatmentAdded t), d')"
  shows "trt_case_id t =
           env_integer_affinity e
             (select_case_id e d patient (strip (get_or (rq_form rq) ''case_id'' []))
                (strip (get_or (rq_form rq) ''case_id_manual'' [])))
         \<and> trt_patient_id t = pat_id patient \<and> trt_visit_id t = vis_id visit
         \<and> t \<in> set (db_treatments d')
         \<and> ensure_case d patient
             (select_case_id e d patient (strip (get_or (rq_form rq) ''case_id'' []))
                (strip (get_or (rq_form rq) ''case_id_manual'' []))) \<noteq> Inl IntegrityError"
  using assms
  by (auto simp: add_treatment_post_def Let_def save_file_def
      split: option.splits sum.splits if_splits)

lemma add_treatment_added:
  assumes "add_treatment e ss rq d pid = (Inr (TreatmentAdded t), d')"
  shows "\<exists>patient visit. find (\<lambda>p. pat_id p = pid) (db_patients d) = Some patient
           \<and> pat_id patient = pid
           \<and> resolve_visit rq d = Inr (Some visit) \<and> vis_patient_id visit = pid
           \<and> rq_method rq = ''POST''
           \<and> add_treatment_post e ss rq d patient visit = (Inr (TreatmentAdded t), d')"
proof -
  from assms obtain patient where P: "find (\<lambda>p. pat_id p = pid) (db_patients d) = Some patient"
    by (cases "find (\<lambda>p. pat_id p = pid) (db_patients d)")
      (auto simp: add_treatment_def split: if_splits)
  then have id: "pat_id patient = pid" by (rule find_pat_id)
  from assms P obtain visit where V: "resolve_visit rq d = Inr (Some visit)"
    by (cases "resolve_visit rq d")
      (auto simp: add_treatment_def split: if_splits option.splits)
  from assms P V id show ?thesis
    by (auto simp: add_treatment_def Let_def split: if_splits)
qed

text \<open>
  A fee that \<open>float\<close> reads as not a number is stored as NULL: the new treatment of
  the patient has no amount.
\<close>

lemma add_treatment_post_amount:
  assumes "add_treatment_post e ss rq d patient visit = (Inr (TreatmentAdded t), d')"
  shows "\<exists>fee. form_float e (rq_form rq ''treatment_fee'') = Some fee
           \<and> trt_amount t = store_float fee"
  using assms
  by (auto simp: add_treatment_post_def Let_def split: option.splits sum.splits if_splits)

lemma ensure_case_patients: "ensure_case d patient case_id = Inr d1 \<Longrightarrow> db_patients d1 = db_patients d"
  by (auto simp: ensure_case_def insert_case_def Let_def split: option.splits sum.splits if_splits)

lemma add_treatment_post_patients:
  assumes "add_treatment_post e ss rq d patient visit = (Inr (TreatmentAdded t), d')"
  shows "db_patients d' = db_patients d"
proof -
  let ?cid = "select_case_id e d patient (strip (get_or (rq_form rq) ''case_id'' []))
      (strip (get_or (rq_form rq) ''case_id_manual'' []))"
  from assms obtain d1 where d1: "ensure_case d patient ?cid = Inr d1"
    by (cases "ensure_case d patient ?cid")
      (auto simp: add_treatment_post_def Let_def split: option.splits)
  then have "db_patients d1 = db_patients d" by (rule ensure_case_patients)
  with assms d1 show ?thesis
    by (auto simp: add_treatment_post_def Let_def save_file_def
        split: option.splits sum.splits if_splits)
qed

lemma add_treatment_nan_fee:
  assumes added: "add_treatment e ss rq d pid = (Inr (TreatmentAdded t), d')"
      and sent: "rq_form rq ''treatment_fee'' = Some fee"
      and filled: "fee \<noteq> []"
      and nan: "env_float e fee = Some NaN"
  shows "trt_amount t = None \<and> t \<in> set (patient_treatments d' pid)
         \<and> db_patients d' = db_patients d"
proof -
  from add_treatment_added [OF added] obtain patient visit where
    id: "pat_id patient = pid"
    and post: "add_treatment_post e ss rq d patient visit = (Inr (TreatmentAdded t), d')"
    by blast
  from sent filled nan have "form_float e (rq_form rq ''treatment_fee'') = Some NaN"
    by (simp add: form_float_def)
  with add_treatment_post_amount [OF post] have "trt_amount t = None"
    by (auto simp: store_float_def)
  moreover from add_treatment_post_added [OF post] id
  have "t \<in> set (patient_treatments d' pid)"
    by (simp add: patient_treatments_def)
  moreover note add_treatment_post_patients [OF post]
  ultimately show ?thesis by simp
qed

text \<open>
  C6. The claim ends with the new treatment being linked to the case row. For a
  treatment added with neither a selected nor a manual case, under SQLite's conversion
  for an INTEGER column: the treatment's \<open>case_id\<close> column holds the generated
  identifier as text, not the primary key of the case, so the treatment is among the
  treatments of no case at all.
\<close>

theorem generated_case_never_linked:
  assumes aff: "env_integer_affinity e = sqlite_integer_affinity"
      and selected: "strip (get_or (rq_form rq) ''case_id'' []) = []"
      and manual: "strip (get_or (rq_form rq) ''case_id_manual'' []) = []"
      and added: "add_treatment e ss rq d pid = (Inr (TreatmentAdded t), d')"
  shows "\<exists>patient. find (\<lambda>p. pat_id p = pid) (db_patients d) = Some patient
           \<and> trt_case_id t =
               SqlText (generated_id e patient
                 (count_cases_like d pid (case_prefix pid (env_today_compact e)) + 1))
           \<and> t \<in> set (db_treatments d')
           \<and> (\<forall>c. t \<notin> set (case_treatments d' c))"
proof -
  from add_treatment_added [OF added] obtain patient visit where
    P: "find (\<lambda>p. pat_id p = pid) (db_patients d) = Some patient"
    and id: "pat_id patient = pid"
    and post: "add_treatment_post e ss rq d patient visit = (Inr (TreatmentAdded t), d')"
    by blast
  let ?cid = "generated_id e patient
      (count_cases_like d pid (case_prefix pid (env_today_compact e)) + 1)"
  from add_treatment_post_added [OF post] selected manual
  have col: "trt_case_id t = env_integer_affinity e (select_case_id e d patient [] [])"
    and mem: "t \<in> set (db_treatments d')"
    by simp_all
  have "select_case_id e d patient [] [] = ?cid"
    using id by (simp add: select_case_id_generated)
  moreover have "?cid = ''CASE-'' @ (str_int (pat_id patient) @ ''-'' @ env_today_compact e
      @ ''-'' @ fmt_02d (count_cases_like d pid (case_prefix pid (env_today_compact e)) + 1))"
    by (simp add: generated_id_def case_prefix_def)
  ultimately have stored: "trt_case_id t = SqlText ?cid"
    using col aff sqlite_integer_affinity_case_text by metis
  then have "\<forall>c. t \<notin> set (case_treatments d' c)"
    by (simp add: case_treatments_def)
  with P stored mem show ?thesis by blast
qed

lemma add_treatment_example:
  "add_treatment env0 doctor_session
     (post_request [(''visit_id'', ''1''), (''treatment_fee'', ''200''),
        (''amount_received'', ''50'')] []) db0 1 =
   (Inr (TreatmentAdded
      \<lparr>trt_id = 1, trt_treatment_category = None, trt_treatment_type = None,
       trt_date = ''2025-01-01'', trt_notes = None, trt_amount = Some (Finite 200),
       trt_next_appointment = None, trt_status = ''Completed'', trt_tooth_number = None,
       trt_doctor = Some ''doctor'', trt_dentist_id = None, trt_patient_id = 1,
       trt_case_id = SqlText ''CASE-1-20250101-01'', trt_visit_id = 1\<rparr>),
    snd (add_treatment env0 doctor_session
     (post_request [(''visit_id'', ''1''), (''treatment_fee'', ''200''),
        (''amount_received'', ''50'')] []) db0 1))"
  by code_simp

lemma add_treatment_example_case:
  "db_cases (snd (add_treatment env0 doctor_session
     (post_request [(''visit_id'', ''1''), (''treatment_fee'', ''200''),
        (''amount_received'', ''50'')] []) db0 1)) =
   [case_of_patient2,
    \<lparr>cas_id = 2, cas_case_id = ''CASE-1-20250101-01'',
     cas_title = Some ''Case CASE-1-20250101-01'', cas_chief_complaint = None,
     cas_diagnosis = None, cas_treatment_plan = None, cas_status = ''Active'',
     cas_patient_id = 1\<rparr>]"
  by code_simp

theorem generated_case_never_linked_witness:
  "\<exists>t d'. add_treatment env0 doctor_session
       (post_request [(''visit_id'', ''1''), (''treatment_fee'', ''200''),
          (''amount_received'', ''50'')] []) db0 1 = (Inr (TreatmentAdded t), d')
     \<and> trt_case_id t = SqlText ''CASE-1-20250101-01''
     \<and> db_cases d' =
         [case_of_patient2,
          \<lparr>cas_id = 2, cas_case_id = ''CASE-1-20250101-01'',
           cas_title = Some ''Case CASE-1-20250101-01'', cas_chief_complaint = None,
           cas_diagnosis = None, cas_treatment_plan = None, cas_status = ''Active'',
           cas_patient_id = 1\<rparr>]
     \<and> t \<in> set (db_treatments d')
     \<and> (\<forall>c. t \<notin> set (case_treatments d' c))"
proof -
  let ?rq = "post_request [(''visit_id'', ''1''), (''treatment_fee'', ''200''),
        (''amount_received'', ''50'')] []"
  let ?t = "\<lparr>trt_id = 1, trt_treatment_category = None, trt_treatment_type = None,
       trt_date = ''2025-01-01'', trt_notes = None, trt_amount = Some (Finite 200),
       trt_next_appointment = None, trt_status = ''Completed'', trt_tooth_number = None,
       trt_doctor = Some ''doctor'', trt_dentist_id = None, trt_patient_id = 1,
       trt_case_id = SqlText ''CASE-1-20250101-01'', trt_visit_id = 1\<rparr>"
  let ?d' = "snd (add_treatment env0 doctor_session ?rq db0 1)"
  have aff: "env_integer_affinity env0 = sqlite_integer_affinity" by (simp add: env0_def)
  have selected: "strip (get_or (rq_form ?rq) ''case_id'' []) = []"
    by (simp add: post_request_def get_or_def strip_def)
  have manual: "strip (get_or (rq_form ?rq) ''case_id_manual'' []) = []"
    by (simp add: post_request_def get_or_def strip_def)
  note run = add_treatment_example
  from generated_case_never_linked [OF aff selected manual run]
  have "?t \<in> set (db_treatments ?d') \<and> (\<forall>c. ?t \<notin> set (case_treatments ?d' c))"
    by blast
  moreover have "trt_case_id ?t = SqlText ''CASE-1-20250101-01''" by simp
  ultimately show ?thesis
    using run add_treatment_example_case by blast
qed

lemma dropWhile_none: "\<forall>c\<in>set s. \<not> P c \<Longrightarrow> dropWhile P s = s"
  by (cases s) simp_all

lemma chr_isdigit_plain:
  assumes "chr_isdigit c"
  shows "\<not> chr_isspace_int c" and "c \<noteq> CHR ''-''" and "c \<noteq> CHR ''+''" and "c \<noteq> CHR ''_''"
  using assms by (auto simp: chr_isdigit_def chr_isdecimal_def chr_isspace_int_def Let_def)

lemma strip_int_digits: "list_all chr_isdigit s \<Longrightarrow> strip_int s = s"
proof -
  assume a: "list_all chr_isdigit s"
  then have n: "\<forall>c\<in>set s. \<not> chr_isspace_int c"
    by (auto simp: list_all_iff chr_isdigit_plain)
  then have "\<forall>c\<in>set (rev s). \<not> chr_isspace_int c" by simp
  then have "dropWhile chr_isspace_int (rev s) = rev s" by (rule dropWhile_none)
  with n show ?thesis by (simp add: strip_int_def dropWhile_none)
qed

lemma int_digits_superscript:
  "list_all chr_isdigit cs \<Longrightarrow> \<not> list_all chr_isdecimal cs \<Longrightarrow> int_digits cs acc = None"
proof (induction cs arbitrary: acc)
  case Nil
  then show ?case by simp
next
  case (Cons c cs)
  from Cons.prems have c: "chr_isdigit c" and rest: "list_all chr_isdigit cs" by simp_all
  show ?case
  proof (cases "chr_isdecimal c")
    case True
    with Cons.prems have "\<not> list_all chr_isdecimal cs" by simp
    with Cons.IH rest True show ?thesis by simp
  next
    case False
    with chr_isdigit_plain(4) [OF c] show ?thesis by simp
  qed
qed

lemma int_digits_decimal: "list_all chr_isdecimal cs \<Longrightarrow> \<exists>n. int_digits cs acc = Some n"
  by (induction cs arbitrary: acc) simp_all

lemma chr_isdecimal_isdigit: "chr_isdecimal c \<Longrightarrow> chr_isdigit c"
  by (simp add: chr_isdigit_def Let_def)

text \<open>
  On a string that \<open>isdigit\<close> accepts, \<open>int\<close> succeeds exactly when every character
  is a decimal digit and there are no more than 4300 of them: a superscript digit
  passes \<open>isdigit\<close> and makes \<open>int\<close> raise.
\<close>

lemma isdigit_int_literal:
  assumes "isdigit s"
  shows "(int_literal s = None) = (\<not> list_all chr_isdecimal s)"
proof -
  from assms obtain c cs where s: "s = c # cs" and c: "chr_isdigit c"
    and cs: "list_all chr_isdigit cs"
    by (cases s) (auto simp: isdigit_def)
  from assms have "strip_int s = s" by (simp add: isdigit_def strip_int_digits)
  then have st: "strip_int (c # cs) = c # cs" by (simp only: s)
  note plain = chr_isdigit_plain [OF c]
  show ?thesis
  proof (cases "list_all chr_isdecimal s")
    case True
    with s have "chr_isdecimal c" and "list_all chr_isdecimal cs" by simp_all
    then obtain n where "int_digits cs (chr_value c) = Some n"
      using int_digits_decimal by blast
    with \<open>chr_isdecimal c\<close> True plain show ?thesis
      by (simp add: int_literal_def st s int_unsigned_def)
  next
    case False
    have "int_unsigned (c # cs) = None"
    proof (cases "chr_isdecimal c")
      case True
      with False s have "\<not> list_all chr_isdecimal cs" by simp
      with cs have "int_digits cs (chr_value c) = None" by (rule int_digits_superscript)
      with True show ?thesis by (simp add: int_unsigned_def)
    next
      case False
      then show ?thesis by (simp add: int_unsigned_def)
    qed
    with False plain show ?thesis
      by (simp add: int_literal_def st s)
  qed
qed

lemma isdigit_py_int:
  assumes "isdigit s"
  shows "(py_int s = None) = (\<not> list_all chr_isdecimal s \<or> 4300 < length s)"
proof (cases "list_all chr_isdecimal s")
  case True
  then have "filter chr_isdecimal s = s" by (simp add: list_all_iff)
  with True assms show ?thesis
    by (simp add: py_int_def int_max_str_digits_def isdigit_int_literal)
next
  case False
  with assms show ?thesis by (simp add: py_int_def isdigit_int_literal)
qed

lemma resolve_visit_not_numeric:
  "\<not> isdigit (get_or (rq_form rq) ''visit_id'' []) \<Longrightarrow>
   \<not> isdigit (get_or (rq_args rq) ''visit_id'' []) \<Longrightarrow> resolve_visit rq d = Inr None"
  by (simp add: resolve_visit_def)

lemma resolve_visit_form:
  assumes "isdigit (get_or (rq_form rq) ''visit_id'' [])"
  shows "resolve_visit rq d =
           (case py_int (get_or (rq_form rq) ''visit_id'' []) of
              None \<Rightarrow> Inl ValueError
            | Some n \<Rightarrow> session_get vis_id (db_visits d) n)"
  using assms by (simp add: resolve_visit_def)

text \<open>
  What the visit validation does achieve: for an authorised user and an existing
  patient, a request with no visit id that \<open>isdigit\<close> accepts, with the id of no visit,
  or with the id of another patient's visit is answered with the validation failure;
  and whenever the request does not resolve to a visit of the patient, whatever the
  answer, the database is left as it was.
\<close>

lemma add_treatment_visit_rejected:
  assumes "require_role [''doctor'', ''assistant''] ss"
      and "find (\<lambda>p. pat_id p = pid) (db_patients d) = Some patient"
  shows "resolve_visit rq d = Inr None \<Longrightarrow>
           add_treatment e ss rq d pid = (Inl visit_rejected, d)"
    and "resolve_visit rq d = Inr (Some v) \<Longrightarrow> vis_patient_id v \<noteq> pid \<Longrightarrow>
           add_treatment e ss rq d pid = (Inl visit_rejected, d)"
    and "resolve_visit rq d = Inl x \<Longrightarrow> add_treatment e ss rq d pid = (Inl (Raised x), d)"
  using assms find_pat_id [OF assms(2)] by (simp_all add: add_treatment_def)

lemma add_treatment_without_visit_writes_nothing:
  assumes "\<not> (\<exists>v. resolve_visit rq d = Inr (Some v) \<and> vis_patient_id v = pid)"
  shows "snd (add_treatment e ss rq d pid) = d"
proof (cases "find (\<lambda>p. pat_id p = pid) (db_patients d)")
  case None
  then show ?thesis by (simp add: add_treatment_def)
next
  case (Some patient)
  then have "pat_id patient = pid" by (rule find_pat_id)
  with assms Some show ?thesis
    by (cases "resolve_visit rq d")
      (auto simp: add_treatment_def split: option.splits)
qed

text \<open>
  C8. The claim says that a visit id that is not numeric is rejected with a validation
  failure. A visit id made of characters that \<open>isdigit\<close> accepts but that are not all
  decimal digits (a superscript two, for one) passes the \<open>isdigit\<close> test and then makes
  \<open>int\<close> raise: for an authorised user and an existing patient the request ends in an
  unhandled \<open>ValueError\<close>, not in the validation failure. Nothing is written.
\<close>

theorem superscript_visit_id_raises:
  assumes role: "require_role [''doctor'', ''assistant''] ss"
      and P: "find (\<lambda>p. pat_id p = pid) (db_patients d) = Some patient"
      and v: "rq_form rq ''visit_id'' = Some v"
      and digit: "isdigit v"
      and super: "\<not> list_all chr_isdecimal v"
  shows "add_treatment e ss rq d pid = (Inl (Raised ValueError), d)
         \<and> (Inl (Raised ValueError) :: failure + treatment_reply) \<noteq> Inl visit_rejected"
proof -
  from v have raw: "get_or (rq_form rq) ''visit_id'' [] = v" by (simp add: get_or_def)
  from digit super have "py_int v = None" by (simp add: isdigit_py_int)
  with digit raw have "resolve_visit rq d = Inl ValueError"
    by (simp add: resolve_visit_form)
  with add_treatment_visit_rejected(3) [OF role P]
  have "add_treatment e ss rq d pid = (Inl (Raised ValueError), d)" by blast
  then show ?thesis by (simp add: visit_rejected_def)
qed

theorem superscript_visit_id_raises_witness:
  "isdigit [CHR 0xB2] \<and> \<not> list_all chr_isdecimal [CHR 0xB2]
   \<and> add_treatment env0 doctor_session (post_request [(''visit_id'', [CHR 0xB2])] []) db0 1 =
       (Inl (Raised ValueError), db0)"
proof -
  have role: "require_role [''doctor'', ''assistant''] doctor_session"
    by (simp add: require_role_def doctor_session_def)
  have P: "find (\<lambda>p. pat_id p = 1) (db_patients db0) = Some patient1"
    by (simp add: db0_def patient1_def)
  have v: "rq_form (post_request [(''visit_id'', [CHR 0xB2])] []) ''visit_id'' = Some [CHR 0xB2]"
    by (simp add: post_request_def)
  have digit: "isdigit [CHR 0xB2]" by code_simp
  have super: "\<not> list_all chr_isdecimal [CHR 0xB2]" by code_simp
  from superscript_visit_id_raises [OF role P v digit super] digit super
  show ?thesis by blast
qed


section \<open>Properties of the upload paths\<close>

text \<open>
  The three routes that check: a visit keeps an attachment, and the upload loop or a
  new treatment keeps a radiograph, only for a file that passes \<open>allowed_file\<close>, and
  under the unique name.
\<close>

lemma allowed_file_extension:
  "allowed_file filename \<Longrightarrow> lower (rsplit_ext filename) \<in> {''png'', ''jpg'', ''jpeg'', ''pdf''}"
  by (simp add: allowed_file_def ALLOWED_EXTENSIONS_def)

lemma add_visit_attachment_checked:
  assumes "add_visit e ss rq d pid = (Inr (Some v), d')" and "vis_attachment v = Some name"
  shows "\<exists>filename. rq_files rq ''attachment'' = Some filename \<and> allowed_file filename
           \<and> name = unique_name e 0 filename \<and> name \<in> set (db_uploads d')"
  using assms
  by (auto simp: add_visit_def Let_def save_file_def truthy_def or_empty_def
      split: if_splits option.splits sum.splits)

lemma upload_loop_checked:
  assumes "r \<in> set (db_radiographs (upload_loop e ss patient k files d))"
      and "r \<notin> set (db_radiographs d)"
  shows "\<exists>filename j. filename \<in> set files \<and> allowed_file filename
           \<and> rad_filename r = unique_name e j filename"
  using assms
proof (induction files arbitrary: k d)
  case Nil
  then show ?case by simp
next
  case (Cons filename rest)
  show ?case
  proof (cases "filename \<noteq> [] \<and> allowed_file filename")
    case False
    with Cons.prems have "r \<in> set (db_radiographs (upload_loop e ss patient k rest d))"
      by auto
    from Cons.IH [OF this Cons.prems(2)] show ?thesis by auto
  next
    case True
    let ?row = "\<lparr>rad_id = next_id (map rad_id (db_radiographs (save_file (unique_name e k filename) d))),
                 rad_patient_id = pat_id patient, rad_treatment_id = None, rad_case_id = SqlNull,
                 rad_filename = unique_name e k filename, rad_uploaded_by = ss_username ss,
                 rad_uploaded_at = env_now_minute e\<rparr>"
    let ?d1 = "(save_file (unique_name e k filename) d)
                 \<lparr>db_radiographs := db_radiographs (save_file (unique_name e k filename) d) @ [?row]\<rparr>"
    from True Cons.prems(1)
    have mem: "r \<in> set (db_radiographs (upload_loop e ss patient (Suc k) rest ?d1))"
      by (simp add: Let_def)
    show ?thesis
    proof (cases "r \<in> set (db_radiographs ?d1)")
      case False
      from Cons.IH [OF mem False] show ?thesis by auto
    next
      case in1: True
      with Cons.prems(2) have "r = ?row" by (simp add: save_file_def)
      then have "rad_filename r = unique_name e k filename" by simp
      with True show ?thesis by auto
    qed
  qed
qed

text \<open>
  C9. The claim covers the follow-up attachment. \<open>add_followup\<close> never calls
  \<open>allowed_file\<close> and builds no unique name: whenever a follow-up is submitted with
  notes and a file whose sanitised name is not empty, the file is saved and recorded
  under the sanitised name itself, whatever its extension.
\<close>

theorem followup_attachment_unchecked:
  assumes T: "find (\<lambda>t. trt_id t = tid) (db_treatments d) = Some treatment"
      and post: "rq_method rq = ''POST''"
      and noted: "strip (get_or (rq_form rq) ''notes'' []) \<noteq> []"
      and sent: "rq_files rq ''attachment'' = Some filename"
      and named: "filename \<noteq> []"
      and safe: "env_secure_filename e filename \<noteq> []"
  shows "\<exists>f d'. add_followup e rq d tid = (Inr (FollowupAdded f), d')
           \<and> fu_attachment f = Some (env_secure_filename e filename)
           \<and> env_secure_filename e filename \<in> set (db_uploads d')"
  using assms
  by (simp add: add_followup_def Let_def truthy_def or_empty_def save_file_def)

theorem followup_attachment_unchecked_witness:
  "\<not> allowed_file ''shell.exe''
   \<and> (\<exists>f d'. add_followup env0
          (post_request [(''notes'', ''healing well'')] [(''attachment'', ''shell.exe'')]) db1 1 =
            (Inr (FollowupAdded f), d')
        \<and> fu_attachment f = Some ''shell.exe'' \<and> ''shell.exe'' \<in> set (db_uploads d'))
   \<and> unique_name env0 0 ''shell.exe'' = ''20250101093000_4821_shell.exe''"
proof -
  let ?rq = "post_request [(''notes'', ''healing well'')] [(''attachment'', ''shell.exe'')]"
  have T: "find (\<lambda>t. trt_id t = 1) (db_treatments db1) = Some treatment1"
    by (simp add: db1_def treatment1_def)
  have post: "rq_method ?rq = ''POST''" by (simp add: post_request_def)
  have noted: "strip (get_or (rq_form ?rq) ''notes'' []) \<noteq> []"
    by (simp add: post_request_def get_or_def strip_plain)
  have sent: "rq_files ?rq ''attachment'' = Some ''shell.exe''" by (simp add: post_request_def)
  have named: "''shell.exe'' \<noteq> []" by simp
  have safe: "env_secure_filename env0 ''shell.exe'' \<noteq> []" by (simp add: env0_def)
  have same: "env_secure_filename env0 ''shell.exe'' = ''shell.exe''" by (simp add: env0_def)
  have no: "\<not> allowed_file ''shell.exe''" by code_simp
  have un: "unique_name env0 0 ''shell.exe'' = ''20250101093000_4821_shell.exe''" by code_simp
  from followup_attachment_unchecked [OF T post noted sent named safe]
  have "\<exists>f d'. add_followup env0 ?rq db1 1 = (Inr (FollowupAdded f), d')
        \<and> fu_attachment f = Some ''shell.exe'' \<and> ''shell.exe'' \<in> set (db_uploads d')"
    by (simp only: same)
  with no un show ?thesis by blast
qed


section \<open>Properties of deleting a patient\<close>

lemma items_follow_iff:
  "items_follow d d' =
     (\<forall>r\<in>set (db_prescriptions d). r \<in> set (db_prescriptions d')
        \<or> (\<forall>i\<in>set (db_items d'). itm_prescription_id i \<noteq> rx_id r))"
  by (simp add: items_follow_def list_all_iff)

lemma shrinks_refl: "shrinks d d"
  by (simp add: shrinks_def items_follow_iff)

lemma shrinks_trans:
  assumes "shrinks a b" and "shrinks b c"
  shows "shrinks a c"
proof -
  have "items_follow a c"
    unfolding items_follow_iff
  proof (intro ballI)
    fix r
    assume r: "r \<in> set (db_prescriptions a)"
    show "r \<in> set (db_prescriptions c)
        \<or> (\<forall>i\<in>set (db_items c). itm_prescription_id i \<noteq> rx_id r)"
    proof (cases "r \<in> set (db_prescriptions b)")
      case True
      with assms(2) show ?thesis by (auto simp: shrinks_def items_follow_iff)
    next
      case False
      with r assms(1) have "\<forall>i\<in>set (db_items b). itm_prescription_id i \<noteq> rx_id r"
        by (auto simp: shrinks_def items_follow_iff)
      moreover from assms(2) have "set (db_items c) \<subseteq> set (db_items b)"
        by (simp add: shrinks_def)
      ultimately show ?thesis by blast
    qed
  qed
  with assms show ?thesis
    unfolding shrinks_def by (meson subset_trans)
qed

lemma fold_shrinks:
  assumes "\<And>x d. shrinks d (f x d)"
  shows "shrinks d (fold f xs d)"
proof (induction xs arbitrary: d)
  case Nil
  show ?case by (simp add: shrinks_refl)
next
  case (Cons x xs)
  have "shrinks d (f x d)" by (rule assms)
  moreover have "shrinks (f x d) (fold f xs (f x d))" by (rule Cons.IH)
  ultimately show ?case by (simp add: shrinks_trans)
qed

lemma fold_establishes:
  assumes inv: "\<And>x d. I d \<Longrightarrow> I (f x d)"
      and est: "\<And>x d. I d \<Longrightarrow> Q x (f x d)"
      and keep: "\<And>x y d. Q x d \<Longrightarrow> Q x (f y d)"
      and init: "I d"
  shows "\<forall>x\<in>set xs. Q x (fold f xs d)"
  using init
proof (induction xs arbitrary: d)
  case Nil
  show ?case by simp
next
  case (Cons a xs)
  have stay: "Q x d' \<Longrightarrow> Q x (fold f ys d')" for x d' ys
    by (induction ys arbitrary: d') (simp_all add: keep)
  from Cons.prems have "Q a (f a d)" by (rule est)
  then have "Q a (fold f xs (f a d))" by (rule stay)
  moreover from Cons.prems have "I (f a d)" by (rule inv)
  then have "\<forall>x\<in>set xs. Q x (fold f xs (f a d))" by (rule Cons.IH)
  ultimately show ?case by simp
qed

lemma image_map_subset:
  assumes "\<And>x. k (g x) = k x"
  shows "k ` set (map g xs) \<subseteq> k ` set xs"
  using assms by auto

lemma orm_delete_treatment_shrinks: "shrinks d (orm_delete_treatment tid d)"
proof -
  have p: "pay_patient_id ` set (db_payments (orm_delete_treatment tid d))
      \<subseteq> pay_patient_id ` set (db_payments d)"
    by (auto simp: orm_delete_treatment_def)
  have r: "rad_patient_id ` set (db_radiographs (orm_delete_treatment tid d))
      \<subseteq> rad_patient_id ` set (db_radiographs d)"
    by (auto simp: orm_delete_treatment_def)
  have i: "items_follow d (orm_delete_treatment tid d)"
    by (simp add: items_follow_iff orm_delete_treatment_def)
  have rest: "set (db_users (orm_delete_treatment tid d)) \<subseteq> set (db_users d)
      \<and> set (db_patients (orm_delete_treatment tid d)) \<subseteq> set (db_patients d)
      \<and> set (db_cases (orm_delete_treatment tid d)) \<subseteq> set (db_cases d)
      \<and> set (db_visits (orm_delete_treatment tid d)) \<subseteq> set (db_visits d)
      \<and> set (db_prescriptions (orm_delete_treatment tid d)) \<subseteq> set (db_prescriptions d)
      \<and> set (db_items (orm_delete_treatment tid d)) \<subseteq> set (db_items d)
      \<and> set (db_treatments (orm_delete_treatment tid d)) \<subseteq> set (db_treatments d)
      \<and> set (db_followups (orm_delete_treatment tid d)) \<subseteq> set (db_followups d)
      \<and> set (db_uploads (orm_delete_treatment tid d)) \<subseteq> set (db_uploads d)"
    by (auto simp: orm_delete_treatment_def)
  from p r i rest show ?thesis by (simp add: shrinks_def)
qed

lemma orm_delete_prescription_shrinks: "shrinks d (orm_delete_prescription r d)"
proof -
  have "items_follow d (orm_delete_prescription r d)"
    by (auto simp: items_follow_iff orm_delete_prescription_def)
  then show ?thesis
    by (auto simp: shrinks_def orm_delete_prescription_def)
qed

lemma filter_cases_shrinks: "shrinks d (d\<lparr>db_cases := filter P (db_cases d)\<rparr>)"
  by (auto simp: shrinks_def items_follow_iff)

lemma filter_visits_shrinks: "shrinks d (d\<lparr>db_visits := filter P (db_visits d)\<rparr>)"
  by (auto simp: shrinks_def items_follow_iff)

lemma filter_patients_shrinks: "shrinks d (d\<lparr>db_patients := filter P (db_patients d)\<rparr>)"
  by (auto simp: shrinks_def items_follow_iff)

lemma orm_delete_case_shrinks: "shrinks d (orm_delete_case c d)"
proof -
  let ?d1 = "fold orm_delete_treatment (map trt_id (case_treatments d c)) d"
  have "shrinks d ?d1" by (rule fold_shrinks) (rule orm_delete_treatment_shrinks)
  moreover have "shrinks ?d1 (?d1\<lparr>db_cases := filter (\<lambda>x. cas_id x \<noteq> cas_id c) (db_cases ?d1)\<rparr>)"
    by (rule filter_cases_shrinks)
  ultimately show ?thesis
    unfolding orm_delete_case_def Let_def by (rule shrinks_trans)
qed

lemma orm_delete_visit_shrinks: "shrinks d (orm_delete_visit v d)"
proof -
  let ?d1 = "fold orm_delete_treatment
      (map trt_id (filter (\<lambda>t. trt_visit_id t = vis_id v) (db_treatments d))) d"
  let ?d2 = "case find (\<lambda>r. rx_visit_id r = vis_id v) (db_prescriptions ?d1) of
      None \<Rightarrow> ?d1 | Some prescription \<Rightarrow> orm_delete_prescription prescription ?d1"
  have a: "shrinks d ?d1" by (rule fold_shrinks) (rule orm_delete_treatment_shrinks)
  have b: "shrinks ?d1 ?d2"
    by (cases "find (\<lambda>r. rx_visit_id r = vis_id v) (db_prescriptions ?d1)")
      (simp_all only: option.case shrinks_refl orm_delete_prescription_shrinks)
  have c: "shrinks ?d2 (?d2\<lparr>db_visits := filter (\<lambda>x. vis_id x \<noteq> vis_id v) (db_visits ?d2)\<rparr>)"
    by (rule filter_visits_shrinks)
  from a b c have "shrinks d (?d2\<lparr>db_visits := filter (\<lambda>x. vis_id x \<noteq> vis_id v) (db_visits ?d2)\<rparr>)"
    by (blast intro: shrinks_trans)
  then show ?thesis
    unfolding orm_delete_visit_def Let_def .
qed

lemma orm_delete_patient_shrinks: "shrinks d (orm_delete_patient patient loaded d)"
proof -
  let ?e1 = "fold orm_delete_case
      (filter (\<lambda>c. cas_patient_id c = pat_id patient) (db_cases d)) d"
  let ?e2 = "fold orm_delete_treatment (map trt_id loaded) ?e1"
  let ?e3 = "fold orm_delete_visit
      (filter (\<lambda>v. vis_patient_id v = pat_id patient) (db_visits ?e2)) ?e2"
  let ?e4 = "?e3\<lparr>db_patients := filter (\<lambda>p. pat_id p \<noteq> pat_id patient) (db_patients ?e3)\<rparr>"
  have a: "shrinks d ?e1" by (rule fold_shrinks) (rule orm_delete_case_shrinks)
  have b: "shrinks ?e1 ?e2" by (rule fold_shrinks) (rule orm_delete_treatment_shrinks)
  have c: "shrinks ?e2 ?e3" by (rule fold_shrinks) (rule orm_delete_visit_shrinks)
  have e: "shrinks ?e3 ?e4" by (rule filter_patients_shrinks)
  from a b c e have "shrinks d ?e4" by (blast intro: shrinks_trans)
  then show ?thesis
    unfolding orm_delete_patient_def Let_def .
qed

text \<open>
  A fold of deletions, each of which clears the rows of a table that refer to the key
  of the deleted row, clears the rows that refer to any row of the list.
\<close>

lemma fold_clears:
  assumes sh: "\<And>x d. shrinks d (f x d)"
      and inv: "\<And>d d'. I d \<Longrightarrow> shrinks d d' \<Longrightarrow> I d'"
      and est: "\<And>x d. I d \<Longrightarrow> \<forall>y\<in>set (tbl (f x d)). ref y \<noteq> key x"
      and mono: "\<And>d d'. shrinks d d' \<Longrightarrow> set (tbl d') \<subseteq> set (tbl d)"
      and init: "I d"
  shows "\<forall>x\<in>set xs. \<forall>y\<in>set (tbl (fold f xs d)). ref y \<noteq> key x"
proof -
  define Q where "Q = (\<lambda>x d. \<forall>y\<in>set (tbl d). ref y \<noteq> key x)"
  have i: "I (f x d0)" if "I d0" for x d0
    using that sh by (rule inv)
  have e: "Q x (f x d0)" if "I d0" for x d0
    using est [OF that, of x] by (simp add: Q_def)
  have k: "Q x (f y d0)" if "Q x d0" for x y d0
  proof -
    have "set (tbl (f y d0)) \<subseteq> set (tbl d0)" by (rule mono) (rule sh)
    with that show ?thesis unfolding Q_def by blast
  qed
  have "\<forall>x\<in>set xs. Q x (fold f xs d)"
    using i e k init by (rule fold_establishes [where I = I and Q = Q and f = f])
  then show ?thesis by (simp add: Q_def)
qed

lemma fold_removes:
  assumes sh: "\<And>x d. shrinks d (f x d)"
      and est: "\<And>x d. \<forall>y\<in>set (tbl (f x d)). key y \<noteq> key x"
      and mono: "\<And>d d'. shrinks d d' \<Longrightarrow> set (tbl d') \<subseteq> set (tbl d)"
  shows "\<forall>y\<in>set (tbl (fold f (filter P (tbl d)) d)). \<not> P y"
proof
  fix y
  let ?d1 = "fold f (filter P (tbl d)) d"
  assume y: "y \<in> set (tbl ?d1)"
  have "shrinks d ?d1" by (rule fold_shrinks) (rule sh)
  then have "set (tbl ?d1) \<subseteq> set (tbl d)" by (rule mono)
  with y have yd: "y \<in> set (tbl d)" by blast
  have all: "\<forall>x\<in>set (filter P (tbl d)). \<forall>z\<in>set (tbl ?d1). key z \<noteq> key x"
    by (rule fold_clears [where f = f and tbl = tbl and ref = key and key = key
          and I = "\<lambda>d. True"])
      (simp_all add: sh est mono)
  show "\<not> P y"
  proof
    assume "P y"
    with yd have "y \<in> set (filter P (tbl d))" by simp
    with all y have "key y \<noteq> key y" by blast
    then show False by simp
  qed
qed

lemma shrinks_cases: "shrinks d d' \<Longrightarrow> set (db_cases d') \<subseteq> set (db_cases d)"
  by (simp add: shrinks_def)

lemma shrinks_visits: "shrinks d d' \<Longrightarrow> set (db_visits d') \<subseteq> set (db_visits d)"
  by (simp add: shrinks_def)

lemma shrinks_prescriptions:
  "shrinks d d' \<Longrightarrow> set (db_prescriptions d') \<subseteq> set (db_prescriptions d)"
  by (simp add: shrinks_def)

lemma shrinks_followups: "shrinks d d' \<Longrightarrow> set (db_followups d') \<subseteq> set (db_followups d)"
  by (simp add: shrinks_def)

lemma shrinks_treatments: "shrinks d d' \<Longrightarrow> set (db_treatments d') \<subseteq> set (db_treatments d)"
  by (simp add: shrinks_def)

lemma shrinks_users: "shrinks d d' \<Longrightarrow> set (db_users d') \<subseteq> set (db_users d)"
  by (simp add: shrinks_def)

lemma shrinks_uploads: "shrinks d d' \<Longrightarrow> set (db_uploads d') \<subseteq> set (db_uploads d)"
  by (simp add: shrinks_def)

lemma shrinks_payments:
  "shrinks d d' \<Longrightarrow> pay_patient_id ` set (db_payments d') \<subseteq> pay_patient_id ` set (db_payments d)"
  by (simp add: shrinks_def)

lemma shrinks_radiographs:
  "shrinks d d' \<Longrightarrow>
     rad_patient_id ` set (db_radiographs d') \<subseteq> rad_patient_id ` set (db_radiographs d)"
  by (simp add: shrinks_def)

lemma shrinks_items: "shrinks d d' \<Longrightarrow> items_follow d d'"
  by (simp add: shrinks_def)

lemma orm_delete_case_removes:
  "\<forall>y\<in>set (db_cases (orm_delete_case c d)). cas_id y \<noteq> cas_id c"
  by (simp add: orm_delete_case_def Let_def)

lemma orm_delete_visit_removes:
  "\<forall>y\<in>set (db_visits (orm_delete_visit v d)). vis_id y \<noteq> vis_id v"
  by (simp add: orm_delete_visit_def Let_def)

lemma orm_delete_prescription_removes:
  "\<forall>y\<in>set (db_prescriptions (orm_delete_prescription r d)). rx_id y \<noteq> rx_id r"
  by (simp add: orm_delete_prescription_def)

lemma orm_delete_treatment_followups:
  "\<forall>y\<in>set (db_followups (orm_delete_treatment tid d)). fu_treatment_id y \<noteq> tid"
  by (simp add: orm_delete_treatment_def)

text \<open>Reading one table of a database in which another table was replaced.\<close>

lemma prescriptions_of_visits_update: "db_prescriptions (x\<lparr>db_visits := y\<rparr>) = db_prescriptions x"
  by simp

lemma tables_of_patients_update:
  "db_cases (x\<lparr>db_patients := y\<rparr>) = db_cases x"
  "db_visits (x\<lparr>db_patients := y\<rparr>) = db_visits x"
  "db_followups (x\<lparr>db_patients := y\<rparr>) = db_followups x"
  "db_prescriptions (x\<lparr>db_patients := y\<rparr>) = db_prescriptions x"
  by simp_all

lemma orm_delete_visit_prescriptions:
  assumes one: "inj_on rx_visit_id (set (db_prescriptions d))"
  shows "\<forall>r\<in>set (db_prescriptions (orm_delete_visit v d)). rx_visit_id r \<noteq> vis_id v"
proof -
  let ?d1 = "fold orm_delete_treatment
      (map trt_id (filter (\<lambda>t. trt_visit_id t = vis_id v) (db_treatments d))) d"
  let ?d2 = "case find (\<lambda>r. rx_visit_id r = vis_id v) (db_prescriptions ?d1) of
      None \<Rightarrow> ?d1 | Some prescription \<Rightarrow> orm_delete_prescription prescription ?d1"
  have "shrinks d ?d1" by (rule fold_shrinks) (rule orm_delete_treatment_shrinks)
  then have "set (db_prescriptions ?d1) \<subseteq> set (db_prescriptions d)"
    by (rule shrinks_prescriptions)
  with one have one1: "inj_on rx_visit_id (set (db_prescriptions ?d1))"
    by (rule inj_on_subset)
  have "\<forall>r\<in>set (db_prescriptions ?d2). rx_visit_id r \<noteq> vis_id v"
  proof (cases "find (\<lambda>r. rx_visit_id r = vis_id v) (db_prescriptions ?d1)")
    case None
    then have "\<forall>r\<in>set (db_prescriptions ?d1). rx_visit_id r \<noteq> vis_id v"
      by (simp only: find_None_iff) blast
    with None show ?thesis by (simp only: option.case)
  next
    case (Some p)
    then have p: "p \<in> set (db_prescriptions ?d1)" and pv: "rx_visit_id p = vis_id v"
      by (auto simp only: find_Some_iff nth_mem)
    have "\<forall>r\<in>set (db_prescriptions (orm_delete_prescription p ?d1)).
        rx_visit_id r \<noteq> vis_id v"
    proof
      fix r
      assume r: "r \<in> set (db_prescriptions (orm_delete_prescription p ?d1))"
      then have r1: "r \<in> set (db_prescriptions ?d1)" and other: "rx_id r \<noteq> rx_id p"
        unfolding orm_delete_prescription_def by simp_all
      show "rx_visit_id r \<noteq> vis_id v"
      proof
        assume "rx_visit_id r = vis_id v"
        with pv have "rx_visit_id r = rx_visit_id p" by simp
        with one1 have "r = p" using r1 p by (rule inj_onD)
        with other show False by simp
      qed
    qed
    with Some show ?thesis by (simp only: option.case)
  qed
  then show ?thesis
    unfolding orm_delete_visit_def Let_def prescriptions_of_visits_update .
qed

text \<open>Tables that the deletion of a treatment or of a case leaves as they are.\<close>

lemma fold_preserves:
  assumes "\<And>x d. g (f x d) = g d"
  shows "g (fold f xs d) = g d"
  by (induction xs arbitrary: d) (simp_all add: assms)

lemma orm_delete_treatment_visits: "db_visits (orm_delete_treatment tid d) = db_visits d"
  by (simp add: orm_delete_treatment_def)

lemma orm_delete_case_visits: "db_visits (orm_delete_case c d) = db_visits d"
proof -
  have "db_visits (fold orm_delete_treatment xs d) = db_visits d" for xs
    by (rule fold_preserves [where g = db_visits and f = orm_delete_treatment,
          OF orm_delete_treatment_visits])
  moreover have "db_visits (x\<lparr>db_cases := y\<rparr>) = db_visits x" for x y
    by simp
  ultimately show ?thesis
    unfolding orm_delete_case_def Let_def by simp
qed

text \<open>What the cascade from the patient leaves behind.\<close>

lemma orm_delete_patient_patients:
  "\<forall>p\<in>set (db_patients (orm_delete_patient patient loaded d)). pat_id p \<noteq> pat_id patient"
  by (simp add: orm_delete_patient_def Let_def)

lemma orm_delete_patient_cases:
  "\<forall>c\<in>set (db_cases (orm_delete_patient patient loaded d)). cas_patient_id c \<noteq> pat_id patient"
proof -
  let ?e1 = "fold orm_delete_case
      (filter (\<lambda>c. cas_patient_id c = pat_id patient) (db_cases d)) d"
  let ?e2 = "fold orm_delete_treatment (map trt_id loaded) ?e1"
  let ?e3 = "fold orm_delete_visit
      (filter (\<lambda>v. vis_patient_id v = pat_id patient) (db_visits ?e2)) ?e2"
  have "shrinks ?e1 ?e2" by (rule fold_shrinks) (rule orm_delete_treatment_shrinks)
  moreover have "shrinks ?e2 ?e3" by (rule fold_shrinks) (rule orm_delete_visit_shrinks)
  ultimately have "shrinks ?e1 ?e3" by (rule shrinks_trans)
  then have "set (db_cases ?e3) \<subseteq> set (db_cases ?e1)" by (rule shrinks_cases)
  moreover have "\<forall>c\<in>set (db_cases ?e1). \<not> cas_patient_id c = pat_id patient"
    by (rule fold_removes [where f = orm_delete_case and tbl = db_cases and key = cas_id
          and P = "\<lambda>c. cas_patient_id c = pat_id patient",
          OF orm_delete_case_shrinks orm_delete_case_removes shrinks_cases])
  ultimately have "\<forall>c\<in>set (db_cases ?e3). cas_patient_id c \<noteq> pat_id patient" by blast
  then show ?thesis
    unfolding orm_delete_patient_def Let_def tables_of_patients_update .
qed

lemma orm_delete_patient_visits:
  "\<forall>v\<in>set (db_visits (orm_delete_patient patient loaded d)). vis_patient_id v \<noteq> pat_id patient"
proof -
  let ?e1 = "fold orm_delete_case
      (filter (\<lambda>c. cas_patient_id c = pat_id patient) (db_cases d)) d"
  let ?e2 = "fold orm_delete_treatment (map trt_id loaded) ?e1"
  let ?e3 = "fold orm_delete_visit
      (filter (\<lambda>v. vis_patient_id v = pat_id patient) (db_visits ?e2)) ?e2"
  have "\<forall>v\<in>set (db_visits ?e3). \<not> vis_patient_id v = pat_id patient"
    by (rule fold_removes [where f = orm_delete_visit and tbl = db_visits and key = vis_id
          and P = "\<lambda>v. vis_patient_id v = pat_id patient",
          OF orm_delete_visit_shrinks orm_delete_visit_removes shrinks_visits])
  then show ?thesis
    unfolding orm_delete_patient_def Let_def tables_of_patients_update .
qed

lemma orm_delete_patient_followups:
  "\<forall>t\<in>set loaded. \<forall>f\<in>set (db_followups (orm_delete_patient patient loaded d)).
     fu_treatment_id f \<noteq> trt_id t"
proof -
  let ?e1 = "fold orm_delete_case
      (filter (\<lambda>c. cas_patient_id c = pat_id patient) (db_cases d)) d"
  let ?e2 = "fold orm_delete_treatment (map trt_id loaded) ?e1"
  let ?e3 = "fold orm_delete_visit
      (filter (\<lambda>v. vis_patient_id v = pat_id patient) (db_visits ?e2)) ?e2"
  have "\<forall>tid\<in>set (map trt_id loaded). \<forall>f\<in>set (db_followups ?e2). fu_treatment_id f \<noteq> tid"
    by (rule fold_clears [where f = orm_delete_treatment and tbl = db_followups
          and ref = fu_treatment_id and key = "\<lambda>tid. tid" and I = "\<lambda>d. True"])
      (simp_all add: orm_delete_treatment_shrinks orm_delete_treatment_followups
        shrinks_followups)
  moreover have "shrinks ?e2 ?e3" by (rule fold_shrinks) (rule orm_delete_visit_shrinks)
  then have "set (db_followups ?e3) \<subseteq> set (db_followups ?e2)" by (rule shrinks_followups)
  ultimately have "\<forall>t\<in>set loaded. \<forall>f\<in>set (db_followups ?e3). fu_treatment_id f \<noteq> trt_id t"
    by auto
  then show ?thesis
    unfolding orm_delete_patient_def Let_def tables_of_patients_update .
qed

lemma orm_delete_patient_prescriptions:
  assumes one: "inj_on rx_visit_id (set (db_prescriptions d))"
  shows "\<forall>v\<in>set (db_visits d). vis_patient_id v = pat_id patient \<longrightarrow>
     (\<forall>r\<in>set (db_prescriptions (orm_delete_patient patient loaded d)). rx_visit_id r \<noteq> vis_id v)"
proof -
  let ?e1 = "fold orm_delete_case
      (filter (\<lambda>c. cas_patient_id c = pat_id patient) (db_cases d)) d"
  let ?e2 = "fold orm_delete_treatment (map trt_id loaded) ?e1"
  let ?vs = "filter (\<lambda>v. vis_patient_id v = pat_id patient) (db_visits ?e2)"
  let ?e3 = "fold orm_delete_visit ?vs ?e2"
  have "db_visits ?e1 = db_visits d"
    by (rule fold_preserves [where g = db_visits and f = orm_delete_case,
          OF orm_delete_case_visits])
  moreover have "db_visits ?e2 = db_visits ?e1"
    by (rule fold_preserves [where g = db_visits and f = orm_delete_treatment,
          OF orm_delete_treatment_visits])
  ultimately have same: "db_visits ?e2 = db_visits d" by simp
  have "shrinks d ?e1" by (rule fold_shrinks) (rule orm_delete_case_shrinks)
  moreover have "shrinks ?e1 ?e2" by (rule fold_shrinks) (rule orm_delete_treatment_shrinks)
  ultimately have "shrinks d ?e2" by (rule shrinks_trans)
  then have "set (db_prescriptions ?e2) \<subseteq> set (db_prescriptions d)"
    by (rule shrinks_prescriptions)
  with one have one2: "inj_on rx_visit_id (set (db_prescriptions ?e2))"
    by (rule inj_on_subset)
  have keep: "inj_on rx_visit_id (set (db_prescriptions b))"
    if "inj_on rx_visit_id (set (db_prescriptions a))" and "shrinks a b" for a b
    using that(1) shrinks_prescriptions [OF that(2)] by (rule inj_on_subset)
  have "\<forall>v\<in>set ?vs. \<forall>r\<in>set (db_prescriptions ?e3). rx_visit_id r \<noteq> vis_id v"
    using orm_delete_visit_shrinks keep orm_delete_visit_prescriptions shrinks_prescriptions one2
    by (rule fold_clears [where f = orm_delete_visit and tbl = db_prescriptions
          and ref = rx_visit_id and key = vis_id
          and I = "\<lambda>d. inj_on rx_visit_id (set (db_prescriptions d))"])
  then have "\<forall>v\<in>set (db_visits d). vis_patient_id v = pat_id patient \<longrightarrow>
      (\<forall>r\<in>set (db_prescriptions ?e3). rx_visit_id r \<noteq> vis_id v)"
    unfolding same by auto
  then show ?thesis
    unfolding orm_delete_patient_def Let_def tables_of_patients_update .
qed

text \<open>
  The rows of the patient's own records. For an authorised user and an existing
  patient, where user names and the visit of a prescription are unique as the schema
  declares them: \<open>delete_patient\<close> completes, and afterwards no patient, case, visit,
  treatment, payment or radiograph row carries the patient's id, no follow-up belongs
  to one of the patient's treatments, no prescription to one of the patient's visits,
  no item to one of those prescriptions, the patient's login is gone, and so are the
  files of the patient's radiographs.
\<close>

lemma delete_patient_removes_own_rows:
  assumes role: "require_role [''doctor'', ''assistant''] ss"
      and P: "find (\<lambda>p. pat_id p = pid) (db_patients d) = Some patient"
      and logins: "distinct (map usr_username (db_users d))"
      and one_rx: "distinct (map rx_visit_id (db_prescriptions d))"
  shows "\<exists>d'. delete_patient ss d pid = (None, d')
           \<and> (\<forall>p\<in>set (db_patients d'). pat_id p \<noteq> pid)
           \<and> (\<forall>c\<in>set (db_cases d'). cas_patient_id c \<noteq> pid)
           \<and> (\<forall>v\<in>set (db_visits d'). vis_patient_id v \<noteq> pid)
           \<and> (\<forall>t\<in>set (db_treatments d'). trt_patient_id t \<noteq> pid)
           \<and> (\<forall>p\<in>set (db_payments d'). pay_patient_id p \<noteq> pid)
           \<and> (\<forall>f\<in>set (db_radiographs d'). rad_patient_id f \<noteq> pid)
           \<and> (\<forall>t\<in>set (patient_treatments d pid). \<forall>f\<in>set (db_followups d').
                 fu_treatment_id f \<noteq> trt_id t)
           \<and> (\<forall>v\<in>set (db_visits d). vis_patient_id v = pid \<longrightarrow>
                 (\<forall>r\<in>set (db_prescriptions d'). rx_visit_id r \<noteq> vis_id v))
           \<and> (\<forall>v\<in>set (db_visits d). vis_patient_id v = pid \<longrightarrow>
                 (\<forall>r\<in>set (db_prescriptions d). rx_visit_id r = vis_id v \<longrightarrow>
                    (\<forall>i\<in>set (db_items d'). itm_prescription_id i \<noteq> rx_id r)))
           \<and> (\<forall>u\<in>set (db_users d').
                 \<not> (usr_username u = pat_file_no patient \<and> usr_role u = ''patient''))
           \<and> (\<forall>f\<in>set (db_radiographs d). rad_patient_id f = pid \<longrightarrow>
                 rad_filename f \<notin> set (db_uploads d'))"
proof -
  from P have id: "pat_id patient = pid" by (rule find_pat_id)
  define login :: "user_row \<Rightarrow> bool"
    where "login = (\<lambda>u. usr_username u = pat_file_no patient \<and> usr_role u = ''patient'')"
  define d3 where "d3 =
    d\<lparr>db_treatments := filter (\<lambda>t. trt_patient_id t \<noteq> pid) (db_treatments d),
      db_payments := filter (\<lambda>p. pay_patient_id p \<noteq> pid) (db_payments d),
      db_uploads :=
        filter (\<lambda>n. n \<notin> set (map rad_filename
                  (filter (\<lambda>f. rad_patient_id f = pid) (db_radiographs d)))) (db_uploads d),
      db_radiographs := filter (\<lambda>f. rad_patient_id f \<noteq> pid) (db_radiographs d)\<rparr>"
  define d4 where "d4 =
    (case find login (db_users d3) of
       None \<Rightarrow> d3
     | Some user \<Rightarrow> d3\<lparr>db_users := filter (\<lambda>u. usr_id u \<noteq> usr_id user) (db_users d3)\<rparr>)"
  define D where "D = orm_delete_patient patient (patient_treatments d pid) d4"
  have run: "delete_patient ss d pid = (None, D)"
    using role P id
    by (simp add: delete_patient_def Let_def D_def d4_def d3_def login_def
        cong: option.case_cong)
  have users3: "db_users d3 = db_users d" by (simp add: d3_def)
  have rest4: "db_treatments d4 = db_treatments d3" "db_payments d4 = db_payments d3"
    "db_radiographs d4 = db_radiographs d3" "db_uploads d4 = db_uploads d3"
    "db_visits d4 = db_visits d3" "db_prescriptions d4 = db_prescriptions d3"
    by (simp_all add: d4_def split: option.splits)
  have t4: "\<forall>t\<in>set (db_treatments d4). trt_patient_id t \<noteq> pid"
    by (simp add: rest4 d3_def)
  have p4: "pid \<notin> pay_patient_id ` set (db_payments d4)"
    by (auto simp: rest4 d3_def)
  have r4: "pid \<notin> rad_patient_id ` set (db_radiographs d4)"
    by (auto simp: rest4 d3_def)
  have up4: "\<forall>f\<in>set (db_radiographs d). rad_patient_id f = pid \<longrightarrow>
      rad_filename f \<notin> set (db_uploads d4)"
    by (auto simp: rest4 d3_def)
  have v4: "db_visits d4 = db_visits d" by (simp add: rest4 d3_def)
  have rx4: "db_prescriptions d4 = db_prescriptions d" by (simp add: rest4 d3_def)
  have u4: "\<forall>u\<in>set (db_users d4). \<not> login u"
  proof (cases "find login (db_users d3)")
    case None
    then have "d4 = d3" by (simp add: d4_def)
    moreover from None have "\<forall>u\<in>set (db_users d3). \<not> login u"
      by (simp add: find_None_iff)
    ultimately show ?thesis by simp
  next
    case (Some user)
    then have mem: "user \<in> set (db_users d)" and is_login: "login user"
      by (auto simp: find_Some_iff users3)
    from logins have inj: "inj_on usr_username (set (db_users d))"
      by (simp add: distinct_map)
    show ?thesis
    proof
      fix u
      assume "u \<in> set (db_users d4)"
      with Some have u: "u \<in> set (db_users d)" and other: "usr_id u \<noteq> usr_id user"
        by (simp_all add: d4_def users3)
      show "\<not> login u"
      proof
        assume "login u"
        with is_login have "usr_username u = usr_username user" by (simp add: login_def)
        with inj have "u = user" using u mem by (rule inj_onD)
        with other show False by simp
      qed
    qed
  qed
  have sh: "shrinks d4 D" unfolding D_def by (rule orm_delete_patient_shrinks)
  have c1: "\<forall>p\<in>set (db_patients D). pat_id p \<noteq> pid"
    using orm_delete_patient_patients [of patient "patient_treatments d pid" d4]
    by (simp only: D_def id)
  have c2: "\<forall>c\<in>set (db_cases D). cas_patient_id c \<noteq> pid"
    using orm_delete_patient_cases [of patient "patient_treatments d pid" d4]
    by (simp only: D_def id)
  have c3: "\<forall>v\<in>set (db_visits D). vis_patient_id v \<noteq> pid"
    using orm_delete_patient_visits [of patient "patient_treatments d pid" d4]
    by (simp only: D_def id)
  have c4: "\<forall>t\<in>set (db_treatments D). trt_patient_id t \<noteq> pid"
    using t4 shrinks_treatments [OF sh] by blast
  have c5: "\<forall>p\<in>set (db_payments D). pay_patient_id p \<noteq> pid"
    using p4 shrinks_payments [OF sh] by blast
  have c6: "\<forall>f\<in>set (db_radiographs D). rad_patient_id f \<noteq> pid"
    using r4 shrinks_radiographs [OF sh] by blast
  have c7: "\<forall>t\<in>set (patient_treatments d pid). \<forall>f\<in>set (db_followups D).
      fu_treatment_id f \<noteq> trt_id t"
    unfolding D_def by (rule orm_delete_patient_followups)
  from one_rx have "inj_on rx_visit_id (set (db_prescriptions d4))"
    by (simp add: rx4 distinct_map)
  then have "\<forall>v\<in>set (db_visits d4). vis_patient_id v = pat_id patient \<longrightarrow>
      (\<forall>r\<in>set (db_prescriptions (orm_delete_patient patient (patient_treatments d pid) d4)).
         rx_visit_id r \<noteq> vis_id v)"
    by (rule orm_delete_patient_prescriptions)
  then have c8: "\<forall>v\<in>set (db_visits d). vis_patient_id v = pid \<longrightarrow>
      (\<forall>r\<in>set (db_prescriptions D). rx_visit_id r \<noteq> vis_id v)"
    by (simp only: D_def id v4)
  have follow: "\<forall>r\<in>set (db_prescriptions d). r \<in> set (db_prescriptions D)
      \<or> (\<forall>i\<in>set (db_items D). itm_prescription_id i \<noteq> rx_id r)"
    using shrinks_items [OF sh] by (simp only: items_follow_iff rx4)
  have c9: "\<forall>v\<in>set (db_visits d). vis_patient_id v = pid \<longrightarrow>
      (\<forall>r\<in>set (db_prescriptions d). rx_visit_id r = vis_id v \<longrightarrow>
         (\<forall>i\<in>set (db_items D). itm_prescription_id i \<noteq> rx_id r))"
    using c8 follow by blast
  have c10: "\<forall>u\<in>set (db_users D).
      \<not> (usr_username u = pat_file_no patient \<and> usr_role u = ''patient'')"
    using u4 shrinks_users [OF sh] unfolding login_def by blast
  have c11: "\<forall>f\<in>set (db_radiographs d). rad_patient_id f = pid \<longrightarrow>
      rad_filename f \<notin> set (db_uploads D)"
    using up4 shrinks_uploads [OF sh] by blast
  from run c1 c2 c3 c4 c5 c6 c7 c8 c9 c10 c11 show ?thesis by blast
qed

text \<open>
  C4. The claim says that after the deletion no row refers to the patient or to one of
  the patient's deleted records. The \<open>case_id\<close> columns hold what \<open>add_treatment\<close>
  wrote, the case identifier text, which SQLite stores as an integer when it reads as
  one. A treatment added for the second patient under the manual case identifier \<open>2\<close>
  gets, with its payment, the \<open>case_id\<close> 2, the primary key of the first patient's
  case. Deleting the first patient then removes that case, and with it, through the
  cascade from the case, the second patient's treatment; the second patient's payment
  stays, its \<open>treatment_id\<close> set to NULL and its \<open>case_id\<close> still 2, the key of the
  deleted case.
\<close>

theorem delete_patient_leaves_case_reference:
  "find (\<lambda>c. cas_id c = 2) (db_cases db1) = Some case_of_patient1
   \<and> cas_patient_id case_of_patient1 = 1
   \<and> fst (add_treatment env0 doctor_session manual_case_request db1 2) =
       Inr (TreatmentAdded
         \<lparr>trt_id = 3, trt_treatment_category = None, trt_treatment_type = None,
          trt_date = ''2025-01-01'', trt_notes = None, trt_amount = Some (Finite 100),
          trt_next_appointment = None, trt_status = ''Completed'', trt_tooth_number = None,
          trt_doctor = Some ''doctor'', trt_dentist_id = None, trt_patient_id = 2,
          trt_case_id = SqlInt 2, trt_visit_id = 2\<rparr>)
   \<and> fst (delete_patient doctor_session db_manual 1) = None
   \<and> map cas_id (db_cases (snd (delete_patient doctor_session db_manual 1))) = [1, 3]
   \<and> map trt_id (db_treatments (snd (delete_patient doctor_session db_manual 1))) = [2]
   \<and> filter (\<lambda>p. pay_case_id p = SqlInt 2)
         (db_payments (snd (delete_patient doctor_session db_manual 1))) =
       [\<lparr>pay_id = 3, pay_patient_id = 2, pay_treatment_id = None, pay_case_id = SqlInt 2,
         pay_date = ''2025-01-01'', pay_treatment_fee = Some (Finite 100),
         pay_amount_paid = Some (Finite 0), pay_remaining_balance = Some (Finite 200)\<rparr>]"
proof -
  have a: "find (\<lambda>c. cas_id c = 2) (db_cases db1) = Some case_of_patient1
      \<and> cas_patient_id case_of_patient1 = 1"
    by (simp add: db1_def case_of_patient1_def case_of_patient2_def)
  have b: "fst (add_treatment env0 doctor_session manual_case_request db1 2) =
       Inr (TreatmentAdded
         \<lparr>trt_id = 3, trt_treatment_category = None, trt_treatment_type = None,
          trt_date = ''2025-01-01'', trt_notes = None, trt_amount = Some (Finite 100),
          trt_next_appointment = None, trt_status = ''Completed'', trt_tooth_number = None,
          trt_doctor = Some ''doctor'', trt_dentist_id = None, trt_patient_id = 2,
          trt_case_id = SqlInt 2, trt_visit_id = 2\<rparr>)"
    by code_simp
  have c: "fst (delete_patient doctor_session db_manual 1) = None"
    by code_simp
  have e: "map cas_id (db_cases (snd (delete_patient doctor_session db_manual 1))) = [1, 3]"
    by code_simp
  have f: "map trt_id (db_treatments (snd (delete_patient doctor_session db_manual 1))) = [2]"
    by code_simp
  have g: "filter (\<lambda>p. pay_case_id p = SqlInt 2)
         (db_payments (snd (delete_patient doctor_session db_manual 1))) =
       [\<lparr>pay_id = 3, pay_patient_id = 2, pay_treatment_id = None, pay_case_id = SqlInt 2,
         pay_date = ''2025-01-01'', pay_treatment_fee = Some (Finite 100),
         pay_amount_paid = Some (Finite 0), pay_remaining_balance = Some (Finite 200)\<rparr>]"
    by code_simp
  from a b c e f g show ?thesis by simp
qed

end
